theory Spec2Isabelle
  imports Main
begin

section \<open>Shared conventions\<close>

text \<open>
  The development embeds the resilience layer of the repository: the circuit breaker and the
  error classifier of \<^verbatim>\<open>error_recovery.py\<close>, the client of
  \<^verbatim>\<open>enhanced_mcp_client.py\<close>, the orchestrator of
  \<^verbatim>\<open>mcp_orchestrator.py\<close>, the fallback handler of
  \<^verbatim>\<open>mcp_fallback_handler.py\<close> and the batch executor of
  \<^verbatim>\<open>mcp_connection_monitor.py\<close>.

  A \<^verbatim>\<open>datetime\<close> is an integer number of microseconds, a
  \<^verbatim>\<open>timedelta\<close> their difference. Every reading of the clock
  (\<^verbatim>\<open>datetime.now()\<close>) is an argument of the function that reads it. A Python
  exception is a value of \<open>exn\<close>; a function that can raise returns \<open>exn + 'a\<close>
  with \<open>Inl\<close> for the raised exception. Only subclasses of \<^verbatim>\<open>Exception\<close>
  are modelled, since these are what \<^verbatim>\<open>except Exception\<close> catches.
\<close>

datatype exn =
    AttributeError string
  | TypeError string
  | RuntimeError string
  | RequestError string
  | OtherException string

fun exn_str :: "exn \<Rightarrow> string" where
  "exn_str (AttributeError m) = m"
| "exn_str (TypeError m) = m"
| "exn_str (RuntimeError m) = m"
| "exn_str (RequestError m) = m"
| "exn_str (OtherException m) = m"

text \<open>Decimal printing, for the numbers that f-strings put into messages.\<close>

definition digit_char :: "nat \<Rightarrow> char" where
  "digit_char d = ''0123456789'' ! d"

fun str_nat :: "nat \<Rightarrow> string" where
  "str_nat n = (if n < 10 then [digit_char n] else str_nat (n div 10) @ [digit_char (n mod 10)])"

declare str_nat.simps [simp del]

definition str_int :: "int \<Rightarrow> string" where
  "str_int i = (if i < 0 then CHR ''-'' # str_nat (nat (- i)) else str_nat (nat i))"

section \<open>EnhancedMCPClient (enhanced\_mcp\_client.py)\<close>

text \<open>
  What \<^verbatim>\<open>invoke_tool\<close> returns is a dictionary: the parsed result
  \<^verbatim>\<open>{"results": j, "status": "success"}\<close> of
  \<^verbatim>\<open>_parse_mcp_result\<close>, or \<^verbatim>\<open>{"error": msg, "status": "error"}\<close>.
  The batch executor and the fallback handler also build
  \<^verbatim>\<open>{"status": "error", "error": msg, "tool_name": name}\<close>. The payload type
  \<open>'j\<close> stands for JSON values.
\<close>

datatype 'j tool_result =
    ResultDict 'j
  | ErrorDict string
  | ToolErrorDict string string

fun status :: "'j tool_result \<Rightarrow> string" where
  "status (ResultDict j) = ''success''"
| "status (ErrorDict msg) = ''error''"
| "status (ToolErrorDict msg name) = ''error''"

text \<open>\<^verbatim>\<open>MCPToolMetrics\<close>; the float \<^verbatim>\<open>total_duration_ms\<close> is left out.\<close>

record MCPToolMetrics =
  tool_name :: string
  execution_count :: int
  success_count :: int
  failure_count :: int
  last_execution :: "int option"
  last_error :: "string option"

definition MCPToolMetrics_init :: "string \<Rightarrow> MCPToolMetrics" where
  "MCPToolMetrics_init name =
     \<lparr>tool_name = name, execution_count = 0, success_count = 0, failure_count = 0,
      last_execution = None, last_error = None\<rparr>"

text \<open>
  What one \<^verbatim>\<open>client.post\<close> meets: a response with its status code, its text and
  the outcome of \<^verbatim>\<open>self._parse_mcp_result(resp.json())\<close> (\<open>Inr j\<close> for the
  dictionary \<^verbatim>\<open>{"results": j, "status": "success"}\<close>, \<open>Inl\<close> when decoding
  raises), or an exception raised by the call itself
  (\<open>RequestError\<close> for \<^verbatim>\<open>httpx.RequestError\<close>).
\<close>

datatype 'j http_event =
    Response nat string "exn + 'j"
  | Raises exn

text \<open>
  The world outside the client: \<open>post w n\<close> is what the \<open>n\<close>-th POST of the client
  meets (counted from 0 over the client's life), \<open>json_dumps w\<close> is
  \<^verbatim>\<open>json.dumps(params, sort_keys=True)\<close>, which raises on a value that JSON cannot
  hold, and \<open>fallback_query w\<close> is the local data store behind the fallback tools.
\<close>

record ('p, 'j) world =
  post :: "nat \<Rightarrow> 'j http_event"
  json_dumps :: "'p \<Rightarrow> exn + string"
  fallback_query :: "string \<Rightarrow> 'p \<Rightarrow> exn + 'j tool_result"

text \<open>
  The client. \<open>tools\<close> holds the keys of \<^verbatim>\<open>self.tools\<close>, \<open>client_pool\<close> the
  length of the pool (0 until \<^verbatim>\<open>initialize\<close> has run), and \<open>posts\<close> counts the
  POSTs issued so far: it is not a field of the source but the instrument that says
  whether a call went to the network.
\<close>

record 'j EnhancedMCPClient =
  max_retries :: int
  tools :: "string list"
  metrics :: "string \<rightharpoonup> MCPToolMetrics"
  client_pool :: nat
  pool_index :: nat
  cache :: "string \<rightharpoonup> ('j tool_result \<times> int)"
  cache_ttl :: int
  posts :: nat

definition EnhancedMCPClient_init :: "int \<Rightarrow> 'j EnhancedMCPClient" where
  "EnhancedMCPClient_init retries =
     \<lparr>max_retries = retries, tools = [], metrics = Map.empty, client_pool = 0, pool_index = 0,
      cache = Map.empty, cache_ttl = 300000000, posts = 0\<rparr>"

definition get_client :: "'j EnhancedMCPClient \<Rightarrow> exn + 'j EnhancedMCPClient" where
  "get_client c =
     (if client_pool c = 0 then Inl (RuntimeError ''Client pool not initialized'')
      else Inr (c\<lparr>pool_index := (pool_index c + 1) mod client_pool c\<rparr>))"

definition get_cache_key :: "('p, 'j) world \<Rightarrow> string \<Rightarrow> 'p \<Rightarrow> exn + string" where
  "get_cache_key w name params =
     (case json_dumps w params of Inl e \<Rightarrow> Inl e | Inr s \<Rightarrow> Inr (name @ '':'' @ s))"

definition get_cached_result ::
  "'j EnhancedMCPClient \<Rightarrow> string \<Rightarrow> int \<Rightarrow> 'j tool_result option \<times> 'j EnhancedMCPClient" where
  "get_cached_result c cache_key now =
     (case cache c cache_key of
        Some (res, timestamp) \<Rightarrow>
          if now - timestamp < cache_ttl c then (Some res, c)
          else (None, c\<lparr>cache := (cache c)(cache_key := None)\<rparr>)
      | None \<Rightarrow> (None, c))"

definition set_cached_result ::
  "'j EnhancedMCPClient \<Rightarrow> string \<Rightarrow> 'j tool_result \<Rightarrow> int \<Rightarrow> 'j EnhancedMCPClient" where
  "set_cached_result c cache_key res now = c\<lparr>cache := (cache c)(cache_key \<mapsto> (res, now))\<rparr>"

text \<open>
  \<^verbatim>\<open>metric = self.metrics[tool_name]\<close> is one object, updated in place;
  \<open>update_metric\<close> is that update. The entry exists whenever the source reaches an
  update, so the other case changes nothing.
\<close>

definition update_metric ::
  "string \<Rightarrow> (MCPToolMetrics \<Rightarrow> MCPToolMetrics) \<Rightarrow> 'j EnhancedMCPClient \<Rightarrow> 'j EnhancedMCPClient" where
  "update_metric name f c =
     (case metrics c name of
        Some m \<Rightarrow> c\<lparr>metrics := (metrics c)(name \<mapsto> f m)\<rparr>
      | None \<Rightarrow> c)"

definition record_success :: "string \<Rightarrow> int \<Rightarrow> 'j EnhancedMCPClient \<Rightarrow> 'j EnhancedMCPClient" where
  "record_success name now =
     update_metric name (\<lambda>m. m\<lparr>success_count := success_count m + 1, last_execution := Some now\<rparr>)"

definition record_failure ::
  "string \<Rightarrow> string \<Rightarrow> int \<Rightarrow> 'j EnhancedMCPClient \<Rightarrow> 'j EnhancedMCPClient" where
  "record_failure name msg now =
     update_metric name
       (\<lambda>m. m\<lparr>failure_count := failure_count m + 1, last_error := Some msg, last_execution := Some now\<rparr>)"

text \<open>
  The body of \<^verbatim>\<open>for attempt in range(self.max_retries)\<close>, over the attempts still to
  run. \<open>Some r\<close> is a \<^verbatim>\<open>return r\<close> from inside the loop, \<open>None\<close> is the loop
  running out. \<open>fin\<close> is the clock when the attempt's outcome is recorded. The sleeps
  before a retry only let time pass. A 5xx response on the last attempt skips the sleep and
  falls to the end of the loop body; a \<^verbatim>\<open>RequestError\<close> on the last attempt
  skips the \<^verbatim>\<open>continue\<close>, records the failure and falls to the end of the loop
  body as well.
\<close>

fun attempts ::
  "('p, 'j) world \<Rightarrow> string \<Rightarrow> string option \<Rightarrow> int \<Rightarrow> 'j EnhancedMCPClient \<Rightarrow> int list
     \<Rightarrow> 'j tool_result option \<times> 'j EnhancedMCPClient" where
  "attempts w name cache_key fin c [] = (None, c)"
| "attempts w name cache_key fin c (attempt # rest) =
     (case get_client c of
        Inl e \<Rightarrow> (Some (ErrorDict (exn_str e)), record_failure name (exn_str e) fin c)
      | Inr c1 \<Rightarrow>
         (let c2 = c1\<lparr>posts := Suc (posts c1)\<rparr> in
          case post w (posts c1) of
            Response status_code txt body \<Rightarrow>
              if status_code = 200 then
                (case body of
                   Inl e \<Rightarrow> (Some (ErrorDict (exn_str e)), record_failure name (exn_str e) fin c2)
                 | Inr j \<Rightarrow>
                     (let c3 = record_success name fin c2
                      in (Some (ResultDict j),
                          case cache_key of
                            Some k \<Rightarrow> set_cached_result c3 k (ResultDict j) fin
                          | None \<Rightarrow> c3)))
              else if status_code \<ge> 500 then
                (if attempt < max_retries c2 - 1 then attempts w name cache_key fin c2 rest
                 else attempts w name cache_key fin c2 rest)
              else
                (let error_msg = ''HTTP '' @ str_nat status_code @ '': '' @ txt
                 in (Some (ErrorDict error_msg), record_failure name error_msg fin c2))
          | Raises (RequestError m) \<Rightarrow>
              if attempt < max_retries c2 - 1 then attempts w name cache_key fin c2 rest
              else attempts w name cache_key fin (record_failure name m fin c2) rest
          | Raises e \<Rightarrow> (Some (ErrorDict (exn_str e)), record_failure name (exn_str e) fin c2)))"

text \<open>
  \<^verbatim>\<open>invoke_tool\<close>. \<open>now\<close> is the clock at the cache lookup, \<open>fin\<close> the clock
  when the outcome is recorded. The call returns the dictionary or raises (only
  \<^verbatim>\<open>json.dumps\<close> can raise here: everything after it sits under
  \<^verbatim>\<open>except Exception\<close>), and leaves the client changed either way.
  \<open>invoke_uncached\<close> is the method from the metrics update on, where a call arrives
  that found nothing valid in the cache.
\<close>

definition invoke_uncached ::
  "('p, 'j) world \<Rightarrow> 'j EnhancedMCPClient \<Rightarrow> string \<Rightarrow> string option \<Rightarrow> int
     \<Rightarrow> (exn + 'j tool_result) \<times> 'j EnhancedMCPClient" where
  "invoke_uncached w c1 name cache_key fin =
     (let c2 = (if metrics c1 name = None
                then c1\<lparr>metrics := (metrics c1)(name \<mapsto> MCPToolMetrics_init name)\<rparr>
                else c1);
          c3 = update_metric name (\<lambda>m. m\<lparr>execution_count := execution_count m + 1\<rparr>) c2
      in case attempts w name cache_key fin c3 (map int [0..<nat (max_retries c3)]) of
           (Some r, c4) \<Rightarrow> (Inr r, c4)
         | (None, c4) \<Rightarrow>
             (let error_msg = ''Failed after '' @ str_int (max_retries c4) @ '' attempts''
              in (Inr (ErrorDict error_msg), record_failure name error_msg fin c4)))"

definition invoke_tool ::
  "('p, 'j) world \<Rightarrow> 'j EnhancedMCPClient \<Rightarrow> string \<Rightarrow> 'p \<Rightarrow> bool \<Rightarrow> int \<Rightarrow> int
     \<Rightarrow> (exn + 'j tool_result) \<times> 'j EnhancedMCPClient" where
  "invoke_tool w c name params use_cache now fin =
     (case (if use_cache then map_sum id Some (get_cache_key w name params) else Inr None) of
        Inl e \<Rightarrow> (Inl e, c)
      | Inr cache_key \<Rightarrow>
         (case (case cache_key of Some k \<Rightarrow> get_cached_result c k now | None \<Rightarrow> (None, c)) of
            (Some cached_result, c1) \<Rightarrow> (Inr cached_result, c1)
          | (None, c1) \<Rightarrow> invoke_uncached w c1 name cache_key fin))"

text \<open>The client once \<^verbatim>\<open>_get_client\<close> has handed out a handle and the POST has
  been issued; a name for the proofs.\<close>

definition posted :: "'j EnhancedMCPClient \<Rightarrow> 'j EnhancedMCPClient" where
  "posted c = c\<lparr>pool_index := (pool_index c + 1) mod client_pool c, posts := Suc (posts c)\<rparr>"

text \<open>A lookup that finds nothing (or no lookup at all) hands the call to
  \<open>invoke_uncached\<close> with the client unchanged.\<close>

definition cache_miss ::
  "('p, 'j) world \<Rightarrow> 'j EnhancedMCPClient \<Rightarrow> string \<Rightarrow> 'p \<Rightarrow> bool \<Rightarrow> bool" where
  "cache_miss w c name ps use_cache =
     (\<not> use_cache \<or> (\<exists>s. json_dumps w ps = Inr s \<and> cache c (name @ '':'' @ s) = None))"

text \<open>\<^verbatim>\<open>get_available_tools(self)\<close>: a plain method of one parameter.\<close>

definition get_available_tools :: "'j EnhancedMCPClient \<Rightarrow> string list" where
  "get_available_tools c = tools c"

section \<open>CircuitBreaker (error\_recovery.py)\<close>

datatype State = CLOSED | OPEN | HALF_OPEN

record CircuitBreaker =
  failure_threshold :: int
  recovery_timeout :: int
  success_threshold :: int
  state :: State
  failure_count :: int
  success_count :: int
  last_failure_time :: "int option"
  state_changed_at :: int

text \<open>The constructor; \<open>now\<close> is the clock at construction.\<close>

definition CircuitBreaker_init :: "int \<Rightarrow> int \<Rightarrow> int \<Rightarrow> int \<Rightarrow> CircuitBreaker" where
  "CircuitBreaker_init ft rt st now =
     \<lparr>failure_threshold = ft, recovery_timeout = rt, success_threshold = st,
      state = CLOSED, failure_count = 0, success_count = 0,
      last_failure_time = None, state_changed_at = now\<rparr>"

text \<open>The private transitions \<^verbatim>\<open>_open\<close>, \<^verbatim>\<open>_close\<close> and
  \<^verbatim>\<open>_half_open\<close>.\<close>

definition cb_open :: "int \<Rightarrow> CircuitBreaker \<Rightarrow> CircuitBreaker" where
  "cb_open now cb = cb\<lparr>state := OPEN, state_changed_at := now, failure_count := 0, success_count := 0\<rparr>"

definition cb_close :: "int \<Rightarrow> CircuitBreaker \<Rightarrow> CircuitBreaker" where
  "cb_close now cb = cb\<lparr>state := CLOSED, state_changed_at := now, failure_count := 0, success_count := 0\<rparr>"

definition cb_half_open :: "int \<Rightarrow> CircuitBreaker \<Rightarrow> CircuitBreaker" where
  "cb_half_open now cb = cb\<lparr>state := HALF_OPEN, state_changed_at := now, success_count := 0\<rparr>"

definition call_succeeded :: "int \<Rightarrow> CircuitBreaker \<Rightarrow> CircuitBreaker" where
  "call_succeeded now cb =
     (if state cb = HALF_OPEN then
        (let cb1 = cb\<lparr>success_count := success_count cb + 1\<rparr>
         in if success_count cb1 \<ge> success_threshold cb1 then cb_close now cb1 else cb1)
      else if state cb = CLOSED then cb\<lparr>failure_count := 0\<rparr>
      else cb)"

definition call_failed :: "int \<Rightarrow> CircuitBreaker \<Rightarrow> CircuitBreaker" where
  "call_failed now cb =
     (let cb0 = cb\<lparr>last_failure_time := Some now\<rparr>
      in if state cb0 = CLOSED then
           (let cb1 = cb0\<lparr>failure_count := failure_count cb0 + 1\<rparr>
            in if failure_count cb1 \<ge> failure_threshold cb1 then cb_open now cb1 else cb1)
         else if state cb0 = HALF_OPEN then cb_open now cb0
         else cb0)"

definition should_attempt_recovery :: "int \<Rightarrow> CircuitBreaker \<Rightarrow> bool" where
  "should_attempt_recovery now cb =
     (case last_failure_time cb of
        None \<Rightarrow> True
      | Some t \<Rightarrow> now - t > recovery_timeout cb)"

text \<open>\<^verbatim>\<open>can_execute\<close> returns its answer and the breaker it leaves behind.\<close>

definition can_execute :: "int \<Rightarrow> CircuitBreaker \<Rightarrow> bool \<times> CircuitBreaker" where
  "can_execute now cb =
     (if state cb = CLOSED then (True, cb)
      else if state cb = OPEN then
        (if should_attempt_recovery now cb then (True, cb_half_open now cb) else (False, cb))
      else (True, cb))"

text \<open>A use of the breaker is one of its three public methods at some clock reading; a
  history is a list of uses, applied left to right.\<close>

datatype cb_call = Call_succeeded | Call_failed | Can_execute

fun cb_step :: "CircuitBreaker \<Rightarrow> cb_call \<times> int \<Rightarrow> CircuitBreaker" where
  "cb_step cb (Call_succeeded, now) = call_succeeded now cb"
| "cb_step cb (Call_failed, now) = call_failed now cb"
| "cb_step cb (Can_execute, now) = snd (can_execute now cb)"

definition cb_run :: "CircuitBreaker \<Rightarrow> (cb_call \<times> int) list \<Rightarrow> CircuitBreaker" where
  "cb_run cb calls = foldl cb_step cb calls"

text \<open>\<open>n\<close> consecutive failures, respectively successes, at the given clock readings.\<close>

definition fail_all :: "CircuitBreaker \<Rightarrow> int list \<Rightarrow> CircuitBreaker" where
  "fail_all cb ts = foldl (\<lambda>c t. call_failed t c) cb ts"

definition succeed_all :: "CircuitBreaker \<Rightarrow> int list \<Rightarrow> CircuitBreaker" where
  "succeed_all cb ts = foldl (\<lambda>c t. call_succeeded t c) cb ts"

section \<open>ErrorRecoveryManager.classify\_error (error\_recovery.py)\<close>

datatype ErrorType =
    CONNECTION_ERROR
  | TIMEOUT_ERROR
  | VALIDATION_ERROR
  | RATE_LIMIT_ERROR
  | AUTHENTICATION_ERROR
  | SERVER_ERROR
  | UNKNOWN_ERROR

text \<open>
  \<^verbatim>\<open>str.lower()\<close> on code points below 256: the letters A to Z and the
  Latin-1 capitals (192 to 222 without the multiplication sign 215) move up by 32.
  A message is a list of such code points.
\<close>

definition lower_char :: "char \<Rightarrow> char" where
  "lower_char c =
     (let n = (of_char c :: nat)
      in if (65 \<le> n \<and> n \<le> 90) \<or> (192 \<le> n \<and> n \<le> 222 \<and> n \<noteq> 215)
         then char_of (n + 32) else c)"

definition lower :: "string \<Rightarrow> string" where
  "lower s = map lower_char s"

text \<open>\<^verbatim>\<open>t in s\<close> on strings: \<open>t\<close> occurs in \<open>s\<close> as a contiguous run.\<close>

fun starts_with :: "string \<Rightarrow> string \<Rightarrow> bool" where
  "starts_with [] s = True"
| "starts_with (p # ps) [] = False"
| "starts_with (p # ps) (c # cs) = (p = c \<and> starts_with ps cs)"

fun contains :: "string \<Rightarrow> string \<Rightarrow> bool" where
  "contains t [] = (t = [])"
| "contains t (c # cs) = (starts_with t (c # cs) \<or> contains t cs)"

text \<open>\<^verbatim>\<open>any(term in error_str for term in terms)\<close>.\<close>

definition any_term_in :: "string list \<Rightarrow> string \<Rightarrow> bool" where
  "any_term_in terms error_str = list_ex (\<lambda>t. contains t error_str) terms"

text \<open>The argument is \<^verbatim>\<open>str(error)\<close>.\<close>

definition classify_error :: "string \<Rightarrow> ErrorType" where
  "classify_error error =
     (let error_str = lower error in
      if any_term_in [''connection'', ''connect'', ''network''] error_str then CONNECTION_ERROR
      else if any_term_in [''timeout'', ''timed out''] error_str then TIMEOUT_ERROR
      else if any_term_in [''validation'', ''invalid'', ''missing required''] error_str
        then VALIDATION_ERROR
      else if any_term_in [''rate limit'', ''too many requests'', ''429''] error_str
        then RATE_LIMIT_ERROR
      else if any_term_in [''unauthorized'', ''authentication'', ''401'', ''403''] error_str
        then AUTHENTICATION_ERROR
      else if any_term_in [''server error'', ''500'', ''502'', ''503''] error_str then SERVER_ERROR
      else UNKNOWN_ERROR)"

text \<open>
  The specification's reading of the classifier, to compare with the code: the categories
  in the required precedence, each with its terms, and the rule that the first category
  with a matching term wins and no match is UNKNOWN. A 5xx term is a status code 500 to
  599 written in decimal.
\<close>

definition category_terms :: "(ErrorType \<times> string list) list" where
  "category_terms =
     [(CONNECTION_ERROR, [''connection'', ''connect'', ''network'']),
      (TIMEOUT_ERROR, [''timeout'', ''timed out'']),
      (VALIDATION_ERROR, [''validation'', ''invalid'', ''missing required'']),
      (RATE_LIMIT_ERROR, [''rate limit'', ''too many requests'', ''429'']),
      (AUTHENTICATION_ERROR, [''unauthorized'', ''authentication'', ''401'', ''403'']),
      (SERVER_ERROR, [''server error'', ''500'', ''502'', ''503''])]"

fun first_match :: "(ErrorType \<times> string list) list \<Rightarrow> string \<Rightarrow> ErrorType" where
  "first_match [] s = UNKNOWN_ERROR"
| "first_match ((ty, terms) # rest) s = (if any_term_in terms s then ty else first_match rest s)"

text \<open>The terms of the five categories that come before SERVER.\<close>

definition earlier_terms :: "string list" where
  "earlier_terms = concat (map snd (butlast category_terms))"

definition mentions_5xx :: "string \<Rightarrow> bool" where
  "mentions_5xx s =
     list_ex (\<lambda>d1. list_ex (\<lambda>d2. contains [CHR ''5'', d1, d2] s) ''0123456789'') ''0123456789''"

section \<open>MCPFallbackHandler (mcp\_fallback\_handler.py)\<close>

record MCPFallbackHandler =
  db_path :: string
  fallback_mode :: bool
  fallback_reasons :: "string list"

definition MCPFallbackHandler_init :: "string \<Rightarrow> MCPFallbackHandler" where
  "MCPFallbackHandler_init path = \<lparr>db_path = path, fallback_mode = False, fallback_reasons = []\<rparr>"

text \<open>The keys of \<^verbatim>\<open>self.fallback_tools\<close>.\<close>

definition fallback_tools :: "string list" where
  "fallback_tools =
     [''list_products'', ''search_customers'', ''get_customer_orders'',
      ''get_customer_value_by_status'', ''sales_by_month'']"

text \<open>
  Every attribute an \<^verbatim>\<open>MCPFallbackHandler\<close> object has: the four set by
  \<^verbatim>\<open>__init__\<close> and the methods of the class. Reading any other name raises
  \<^verbatim>\<open>AttributeError\<close>.
\<close>

definition MCPFallbackHandler_attributes :: "string list" where
  "MCPFallbackHandler_attributes =
     [''db_path'', ''fallback_mode'', ''fallback_reasons'', ''fallback_tools'',
      ''__init__'', ''_find_database'', ''enable_fallback'', ''disable_fallback'',
      ''is_tool_supported'', ''execute_fallback_tool'', ''_execute_query'',
      ''_fallback_list_products'', ''_fallback_search_customers'',
      ''_fallback_get_customer_orders'', ''_fallback_customer_value_by_status'',
      ''_fallback_sales_by_month'', ''get_fallback_status'']"

definition handler_getattr :: "string \<Rightarrow> exn + string" where
  "handler_getattr name =
     (if name \<in> set MCPFallbackHandler_attributes then Inr name
      else Inl (AttributeError (''MCPFallbackHandler object has no attribute '' @ name)))"

definition is_tool_supported :: "MCPFallbackHandler \<Rightarrow> string \<Rightarrow> bool" where
  "is_tool_supported h name = (name \<in> set fallback_tools)"

text \<open>
  \<^verbatim>\<open>execute_fallback_tool\<close> never raises: an unsupported tool and a failing
  fallback function both give an error dictionary. The fallback markers added to the
  result are left out.
\<close>

definition execute_fallback_tool ::
  "('p, 'j) world \<Rightarrow> MCPFallbackHandler \<Rightarrow> string \<Rightarrow> 'p \<Rightarrow> 'j tool_result" where
  "execute_fallback_tool w h name params =
     (if \<not> is_tool_supported h name
      then ErrorDict (''No fallback implementation for tool: '' @ name)
      else case fallback_query w name params of
             Inr r \<Rightarrow> r
           | Inl e \<Rightarrow> ToolErrorDict (''Fallback execution failed: '' @ exn_str e) name)"

section \<open>MCPOrchestrator (mcp\_orchestrator.py)\<close>

datatype ExecutionMode = PRIMARY | FALLBACK | DEGRADED | RECOVERY

text \<open>\<^verbatim>\<open>RecoveryStrategy\<close>; the three floats that size the sleeps between
  attempts are left out.\<close>

record RecoveryStrategy =
  max_retries :: int
  recovery_window :: int

definition RecoveryStrategy_default :: RecoveryStrategy where
  "RecoveryStrategy_default = \<lparr>max_retries = 3, recovery_window = 300000000\<rparr>"

text \<open>\<^verbatim>\<open>ExecutionResult\<close>; the float \<^verbatim>\<open>execution_time\<close> is left out.\<close>

record 'j ExecutionResult =
  success :: bool
  result :: "'j tool_result option"
  mode :: ExecutionMode
  error :: "string option"
  retries :: int

text \<open>
  The orchestrator. \<open>mode_metrics\<close> gives, per mode, the pair of
  \<^verbatim>\<open>executions\<close> and \<^verbatim>\<open>successes\<close> (the float
  \<^verbatim>\<open>total_time\<close> is left out). The monitor is not part of the state: the
  methods it would call are functions here, called by whoever reports the event.
\<close>

record 'j MCPOrchestrator =
  recovery_strategy :: RecoveryStrategy
  enhanced_client :: "'j EnhancedMCPClient"
  fallback_handler :: "MCPFallbackHandler option"
  current_mode :: ExecutionMode
  mode_history :: "(int \<times> ExecutionMode) list"
  recovery_attempts :: int
  last_recovery_attempt :: "int option"
  consecutive_errors :: int
  error_threshold :: int
  error_history :: "(int \<times> string) list"
  mode_metrics :: "ExecutionMode \<Rightarrow> int \<times> int"

text \<open>
  \<^verbatim>\<open>__init__\<close>: the handler exists when \<^verbatim>\<open>database_path\<close> is truthy
  (given and not empty); the client is built with its default of 3 retries.
\<close>

definition MCPOrchestrator_init :: "string option \<Rightarrow> RecoveryStrategy \<Rightarrow> 'j MCPOrchestrator" where
  "MCPOrchestrator_init database_path strategy =
     \<lparr>recovery_strategy = strategy,
      enhanced_client = EnhancedMCPClient_init 3,
      fallback_handler =
        (case database_path of
           None \<Rightarrow> None
         | Some path \<Rightarrow> if path = [] then None else Some (MCPFallbackHandler_init path)),
      current_mode = PRIMARY,
      mode_history = [],
      recovery_attempts = 0,
      last_recovery_attempt = None,
      consecutive_errors = 0,
      error_threshold = 3,
      error_history = [],
      mode_metrics = (\<lambda>m. (0, 0))\<rparr>"

text \<open>\<^verbatim>\<open>xs[-100:]\<close> after an append.\<close>

definition keep_last_100 :: "'a list \<Rightarrow> 'a list" where
  "keep_last_100 xs = (if length xs > 100 then drop (length xs - 100) xs else xs)"

definition record_mode_change :: "int \<Rightarrow> ExecutionMode \<Rightarrow> 'j MCPOrchestrator \<Rightarrow> 'j MCPOrchestrator" where
  "record_mode_change now m orch = orch\<lparr>mode_history := keep_last_100 (mode_history orch @ [(now, m)])\<rparr>"

definition switch_mode :: "int \<Rightarrow> ExecutionMode \<Rightarrow> 'j MCPOrchestrator \<Rightarrow> 'j MCPOrchestrator" where
  "switch_mode now new_mode orch =
     (if new_mode \<noteq> current_mode orch
      then record_mode_change now new_mode (orch\<lparr>current_mode := new_mode\<rparr>)
      else orch)"

text \<open>
  The loop of \<^verbatim>\<open>_try_primary_execution\<close> over the attempts still to run. The call
  is \<^verbatim>\<open>invoke_tool(tool_name, parameters, server_type)\<close>: the third positional
  parameter of \<^verbatim>\<open>invoke_tool\<close> is \<^verbatim>\<open>use_cache\<close>, so the cache is used
  when the string \<^verbatim>\<open>server_type\<close> is truthy, that is not empty. \<open>clock attempt\<close>
  gives the two clock readings of that attempt's \<^verbatim>\<open>invoke_tool\<close>.
\<close>

fun primary_attempts ::
  "('p, 'j) world \<Rightarrow> string \<Rightarrow> 'p \<Rightarrow> string \<Rightarrow> (int \<Rightarrow> int \<times> int) \<Rightarrow> 'j EnhancedMCPClient
     \<Rightarrow> int \<Rightarrow> string option \<Rightarrow> int list \<Rightarrow> 'j ExecutionResult \<times> 'j EnhancedMCPClient" where
  "primary_attempts w name params server_type clock c n last_err [] =
     (\<lparr>success = False, result = None, mode = PRIMARY, error = last_err, retries = n\<rparr>, c)"
| "primary_attempts w name params server_type clock c n last_err (attempt # rest) =
     (case invoke_tool w c name params (server_type \<noteq> []) (fst (clock attempt)) (snd (clock attempt)) of
        (Inr r, c1) \<Rightarrow>
          (\<lparr>success = True, result = Some r, mode = PRIMARY, error = None, retries = n\<rparr>, c1)
      | (Inl e, c1) \<Rightarrow>
          primary_attempts w name params server_type clock c1 (n + 1) (Some (exn_str e)) rest)"

definition try_primary_execution ::
  "('p, 'j) world \<Rightarrow> 'j MCPOrchestrator \<Rightarrow> string \<Rightarrow> 'p \<Rightarrow> string \<Rightarrow> (int \<Rightarrow> int \<times> int)
     \<Rightarrow> 'j ExecutionResult \<times> 'j MCPOrchestrator" where
  "try_primary_execution w orch name params server_type clock =
     (case primary_attempts w name params server_type clock (enhanced_client orch) 0 None
             (map int [0..<nat (max_retries (recovery_strategy orch))]) of
        (r, c) \<Rightarrow> (r, orch\<lparr>enhanced_client := c\<rparr>))"

text \<open>
  \<^verbatim>\<open>_can_use_fallback\<close> reads the attribute \<^verbatim>\<open>supports_tool\<close> of the
  handler and \<^verbatim>\<open>_try_fallback_execution\<close> reads \<^verbatim>\<open>execute_fallback\<close>;
  the handler's class is fixed by \<^verbatim>\<open>__init__\<close>. Where the lookup succeeds the
  call is the class's method of that purpose.
\<close>

definition can_use_fallback :: "'j MCPOrchestrator \<Rightarrow> string \<Rightarrow> exn + bool" where
  "can_use_fallback orch name =
     (case fallback_handler orch of
        None \<Rightarrow> Inr False
      | Some h \<Rightarrow>
          (case handler_getattr ''supports_tool'' of
             Inl e \<Rightarrow> Inl e
           | Inr m \<Rightarrow> Inr (is_tool_supported h name)))"

definition try_fallback_execution ::
  "('p, 'j) world \<Rightarrow> MCPFallbackHandler \<Rightarrow> string \<Rightarrow> 'p \<Rightarrow> int \<Rightarrow> 'j ExecutionResult" where
  "try_fallback_execution w h name params previous_retries =
     (case handler_getattr ''execute_fallback'' of
        Inl e \<Rightarrow>
          \<lparr>success = False, result = None, mode = FALLBACK, error = Some (exn_str e),
           retries = previous_retries\<rparr>
      | Inr m \<Rightarrow>
          \<lparr>success = True, result = Some (execute_fallback_tool w h name params), mode = FALLBACK,
           error = None, retries = previous_retries\<rparr>)"

text \<open>
  \<^verbatim>\<open>_test_primary_connection\<close> calls
  \<^verbatim>\<open>self.enhanced_client.get_available_tools("primary")\<close> and awaits the value.
  The method takes no argument besides \<^verbatim>\<open>self\<close>, so a call with arguments raises
  \<^verbatim>\<open>TypeError\<close>; and what it returns is a list, which cannot be awaited. Both
  are caught by \<^verbatim>\<open>except Exception\<close>.
\<close>

definition call_get_available_tools :: "'j EnhancedMCPClient \<Rightarrow> string list \<Rightarrow> exn + string list" where
  "call_get_available_tools c args =
     (if args \<noteq> []
      then Inl (TypeError ''get_available_tools() takes 1 positional argument but 2 were given'')
      else Inr (get_available_tools c))"

definition await_list :: "string list \<Rightarrow> exn + string list" where
  "await_list xs = Inl (TypeError ''object list cannot be used in await expression'')"

definition test_primary_connection :: "'j MCPOrchestrator \<Rightarrow> bool" where
  "test_primary_connection orch =
     (case call_get_available_tools (enhanced_client orch) [''primary''] of
        Inl e \<Rightarrow> False
      | Inr listed \<Rightarrow>
          (case await_list listed of
             Inl e \<Rightarrow> False
           | Inr ts \<Rightarrow> length ts > 0))"

definition orch_should_attempt_recovery :: "int \<Rightarrow> 'j MCPOrchestrator \<Rightarrow> bool" where
  "orch_should_attempt_recovery now orch =
     (case last_recovery_attempt orch of
        None \<Rightarrow> True
      | Some t \<Rightarrow> now - t > recovery_window (recovery_strategy orch))"

text \<open>\<^verbatim>\<open>_handle_successful_execution\<close>; the boolean says whether the task
  \<^verbatim>\<open>_attempt_recovery()\<close> was created.\<close>

definition handle_successful_execution ::
  "int \<Rightarrow> 'j ExecutionResult \<Rightarrow> 'j MCPOrchestrator \<Rightarrow> 'j MCPOrchestrator \<times> bool" where
  "handle_successful_execution now r orch =
     (let orch1 = orch\<lparr>consecutive_errors := 0,
                       mode_metrics := (mode_metrics orch)
                         (mode r := (fst (mode_metrics orch (mode r)) + 1,
                                     snd (mode_metrics orch (mode r)) + 1))\<rparr>
      in (orch1, mode r = FALLBACK \<and> orch_should_attempt_recovery now orch1))"

definition attempt_recovery :: "int \<Rightarrow> 'j MCPOrchestrator \<Rightarrow> 'j MCPOrchestrator" where
  "attempt_recovery now orch =
     (if current_mode orch = PRIMARY then orch
      else
        (let orch1 = orch\<lparr>last_recovery_attempt := Some now,
                          recovery_attempts := recovery_attempts orch + 1\<rparr>;
             orch2 = switch_mode now RECOVERY orch1
         in if test_primary_connection orch2
            then (switch_mode now PRIMARY orch2)\<lparr>recovery_attempts := 0\<rparr>
            else switch_mode now (if fallback_handler orch2 \<noteq> None then FALLBACK else DEGRADED) orch2))"

text \<open>\<^verbatim>\<open>_handle_failure(server, error)\<close>; the server's name is only logged.\<close>

definition handle_failure :: "int \<Rightarrow> string \<Rightarrow> 'j MCPOrchestrator \<Rightarrow> 'j MCPOrchestrator" where
  "handle_failure now err orch =
     (let orch1 = orch\<lparr>consecutive_errors := consecutive_errors orch + 1,
                       error_history := keep_last_100 (error_history orch @ [(now, err)])\<rparr>
      in if consecutive_errors orch1 \<ge> error_threshold orch1 then
           (if current_mode orch1 = PRIMARY then
              (if fallback_handler orch1 \<noteq> None then switch_mode now FALLBACK orch1
               else switch_mode now DEGRADED orch1)
            else orch1)
         else orch1)"

text \<open>
  \<^verbatim>\<open>execute_tool\<close>: what the caller gets (the result, or the exception that leaves
  the method), the orchestrator afterwards, and whether a recovery task was created.
  \<open>now\<close> is the clock when a success is handled.
\<close>

definition fallback_stage ::
  "('p, 'j) world \<Rightarrow> 'j MCPOrchestrator \<Rightarrow> string \<Rightarrow> 'p \<Rightarrow> int \<Rightarrow> int
     \<Rightarrow> (exn + 'j ExecutionResult) \<times> 'j MCPOrchestrator \<times> bool" where
  "fallback_stage w orch name params n now =
     (let degraded = \<lparr>success = False, result = None, mode = DEGRADED,
                      error = Some ''All execution methods failed'', retries = n\<rparr>
      in case fallback_handler orch of
           None \<Rightarrow> (Inr degraded, orch, False)
         | Some h \<Rightarrow>
             (case can_use_fallback orch name of
                Inl e \<Rightarrow> (Inl e, orch, False)
              | Inr False \<Rightarrow> (Inr degraded, orch, False)
              | Inr True \<Rightarrow>
                  (let r = try_fallback_execution w h name params n
                   in if success r
                      then (case handle_successful_execution now r orch of
                              (orch1, scheduled) \<Rightarrow> (Inr r, orch1, scheduled))
                      else (Inr degraded, orch, False))))"

definition execute_tool ::
  "('p, 'j) world \<Rightarrow> 'j MCPOrchestrator \<Rightarrow> string \<Rightarrow> 'p \<Rightarrow> string \<Rightarrow> (int \<Rightarrow> int \<times> int) \<Rightarrow> int
     \<Rightarrow> (exn + 'j ExecutionResult) \<times> 'j MCPOrchestrator \<times> bool" where
  "execute_tool w orch name params server_type clock now =
     (if current_mode orch = PRIMARY \<or> current_mode orch = RECOVERY then
        (case try_primary_execution w orch name params server_type clock of
           (r, orch1) \<Rightarrow>
             if success r
             then (case handle_successful_execution now r orch1 of
                     (orch2, scheduled) \<Rightarrow> (Inr r, orch2, scheduled))
             else fallback_stage w orch1 name params (retries r) now)
      else fallback_stage w orch name params 0 now)"

section \<open>BatchExecutor (mcp\_connection\_monitor.py)\<close>

text \<open>
  A tool call is a dictionary with \<^verbatim>\<open>tool_name\<close> and, optionally,
  \<^verbatim>\<open>params\<close>. The client is a parameter of \<^verbatim>\<open>execute_batch\<close>;
  \<open>invoke i\<close> is what its \<^verbatim>\<open>invoke_tool\<close> does for the call at position
  \<open>i\<close>: return a dictionary or raise. The statistics of the executor are left out.
\<close>

record 'p tool_call =
  tool_name :: string
  params :: "'p option"

text \<open>The call at position \<open>i\<close> fails: it raises, or returns an error dictionary.\<close>

definition call_fails :: "(nat \<Rightarrow> exn + 'j tool_result) \<Rightarrow> nat \<Rightarrow> bool" where
  "call_fails invoke i = (case invoke i of Inl e \<Rightarrow> True | Inr r \<Rightarrow> status r = ''error'')"

definition skipped :: "string \<Rightarrow> 'j tool_result" where
  "skipped name = ToolErrorDict ''Skipped due to previous error'' name"

fun sequential_loop ::
  "bool \<Rightarrow> (nat \<Rightarrow> exn + 'j tool_result) \<Rightarrow> nat \<Rightarrow> 'p tool_call list \<Rightarrow> 'j tool_result list
     \<Rightarrow> 'j tool_result list" where
  "sequential_loop stop_on_error invoke i [] results = results"
| "sequential_loop stop_on_error invoke i (tc # rest) results =
     (case invoke i of
        Inr r \<Rightarrow>
          (let results1 = results @ [r]
           in if stop_on_error \<and> status r = ''error'' then results1
              else sequential_loop stop_on_error invoke (Suc i) rest results1)
      | Inl e \<Rightarrow>
          (let results1 = results @ [ToolErrorDict (exn_str e) (tool_name tc)]
           in if stop_on_error then results1
              else sequential_loop stop_on_error invoke (Suc i) rest results1))"

text \<open>\<^verbatim>\<open>while len(results) < len(tool_calls): results.append(...)\<close>.\<close>

function fill_skipped :: "'j tool_result list \<Rightarrow> 'p tool_call list \<Rightarrow> 'j tool_result list" where
  "fill_skipped results tool_calls =
     (if length results < length tool_calls
      then fill_skipped (results @ [skipped (tool_name (tool_calls ! length results))]) tool_calls
      else results)"
  by pat_completeness auto
termination
  by (relation "measure (\<lambda>(results, tool_calls). length tool_calls - length results)") auto

declare fill_skipped.simps [simp del]

definition execute_sequential ::
  "'p tool_call list \<Rightarrow> (nat \<Rightarrow> exn + 'j tool_result) \<Rightarrow> bool \<Rightarrow> 'j tool_result list" where
  "execute_sequential tool_calls invoke stop_on_error =
     fill_skipped (sequential_loop stop_on_error invoke 0 tool_calls []) tool_calls"

text \<open>
  One task of \<^verbatim>\<open>_execute_parallel\<close>: the value it leaves in its slot, and whether it
  raises. With \<^verbatim>\<open>stop_on_error\<close> an error dictionary raises
  \<^verbatim>\<open>Exception("Tool ... failed")\<close> inside the \<^verbatim>\<open>try\<close>, so the handler
  overwrites the slot and raises again.
\<close>

definition task_body ::
  "bool \<Rightarrow> 'p tool_call \<Rightarrow> exn + 'j tool_result \<Rightarrow> 'j tool_result \<times> bool" where
  "task_body stop_on_error tc outcome =
     (case outcome of
        Inr r \<Rightarrow>
          if stop_on_error \<and> status r = ''error''
          then (ToolErrorDict (''Tool '' @ tool_name tc @ '' failed'') (tool_name tc), True)
          else (r, False)
      | Inl e \<Rightarrow> (ToolErrorDict (exn_str e) (tool_name tc), stop_on_error))"

text \<open>
  The tasks run concurrently; \<open>order\<close> lists them in the order in which they finish.
  \<^verbatim>\<open>asyncio.gather\<close> with \<^verbatim>\<open>return_exceptions=False\<close> hands the first
  exception to the awaiting \<^verbatim>\<open>_execute_parallel\<close> and does not wait for the other
  tasks, so the results are returned with the slots of the unfinished tasks still
  \<^verbatim>\<open>None\<close>. A number that is no position of the list names no task.
\<close>

fun parallel_run ::
  "bool \<Rightarrow> 'p tool_call list \<Rightarrow> (nat \<Rightarrow> exn + 'j tool_result) \<Rightarrow> nat list
     \<Rightarrow> 'j tool_result option list \<Rightarrow> 'j tool_result option list" where
  "parallel_run stop_on_error tool_calls invoke [] results = results"
| "parallel_run stop_on_error tool_calls invoke (i # order) results =
     (if i < length tool_calls then
        (case task_body stop_on_error (tool_calls ! i) (invoke i) of
           (slot, raised) \<Rightarrow>
             if raised then results[i := Some slot]
             else parallel_run stop_on_error tool_calls invoke order (results[i := Some slot]))
      else parallel_run stop_on_error tool_calls invoke order results)"

definition execute_parallel ::
  "'p tool_call list \<Rightarrow> (nat \<Rightarrow> exn + 'j tool_result) \<Rightarrow> bool \<Rightarrow> nat list
     \<Rightarrow> 'j tool_result option list" where
  "execute_parallel tool_calls invoke stop_on_error order =
     parallel_run stop_on_error tool_calls invoke order (replicate (length tool_calls) None)"

text \<open>
  \<^verbatim>\<open>execute_batch\<close>. Counting the failures calls \<^verbatim>\<open>r.get('status')\<close> on
  every result, which raises \<^verbatim>\<open>AttributeError\<close> on a slot that is
  \<^verbatim>\<open>None\<close>.
\<close>

definition execute_batch ::
  "'p tool_call list \<Rightarrow> (nat \<Rightarrow> exn + 'j tool_result) \<Rightarrow> bool \<Rightarrow> bool \<Rightarrow> nat list
     \<Rightarrow> exn + 'j tool_result option list" where
  "execute_batch tool_calls invoke parallel stop_on_error order =
     (let results = (if parallel then execute_parallel tool_calls invoke stop_on_error order
                     else map Some (execute_sequential tool_calls invoke stop_on_error))
      in if list_ex (\<lambda>r. r = None) results
         then Inl (AttributeError ''NoneType object has no attribute get'')
         else Inr results)"

section \<open>Scenarios\<close>

text \<open>
  Concrete inputs for the evaluations below. The parameter map is the empty dictionary
  (type \<open>unit\<close>), which \<^verbatim>\<open>json.dumps\<close> prints as \<^verbatim>\<open>{}\<close>; the payload of
  a successful response is a string.
\<close>

definition initialized_client :: "string EnhancedMCPClient" where
  "initialized_client =
     (EnhancedMCPClient_init 3)
       \<lparr>tools := [''list_products''],
        metrics := [''list_products'' \<mapsto> MCPToolMetrics_init ''list_products''],
        client_pool := 10\<rparr>"

definition local_store :: "string \<Rightarrow> unit \<Rightarrow> exn + string tool_result" where
  "local_store name p = Inr (ResultDict ''local rows'')"

definition world_refusing :: "(unit, string) world" where
  "world_refusing =
     \<lparr>post = (\<lambda>n. Raises (RequestError ''connection refused'')),
      json_dumps = (\<lambda>p. Inr ''{}''), fallback_query = local_store\<rparr>"

definition world_always_500 :: "(unit, string) world" where
  "world_always_500 =
     \<lparr>post = (\<lambda>n. Response 500 ''Internal Server Error'' (Inl (OtherException ''no JSON''))),
      json_dumps = (\<lambda>p. Inr ''{}''), fallback_query = local_store\<rparr>"

definition world_500_500_200 :: "(unit, string) world" where
  "world_500_500_200 =
     \<lparr>post = (\<lambda>n. if n < 2 then Response 500 ''Internal Server Error'' (Inl (OtherException ''no JSON''))
                    else Response 200 ''ok'' (Inr ''rows'')),
      json_dumps = (\<lambda>p. Inr ''{}''), fallback_query = local_store\<rparr>"

definition world_404 :: "(unit, string) world" where
  "world_404 =
     \<lparr>post = (\<lambda>n. Response 404 ''Not Found'' (Inl (OtherException ''no JSON''))),
      json_dumps = (\<lambda>p. Inr ''{}''), fallback_query = local_store\<rparr>"

definition world_healthy :: "(unit, string) world" where
  "world_healthy =
     \<lparr>post = (\<lambda>n. Response 200 ''ok'' (Inr ''rows'')),
      json_dumps = (\<lambda>p. Inr ''{}''), fallback_query = local_store\<rparr>"

text \<open>A parameter map that holds a value JSON cannot print, a \<^verbatim>\<open>datetime\<close> say.\<close>

definition world_unserializable :: "(unit, string) world" where
  "world_unserializable =
     \<lparr>post = (\<lambda>n. Response 200 ''ok'' (Inr ''rows'')),
      json_dumps = (\<lambda>p. Inl (TypeError ''Object of type datetime is not JSON serializable'')),
      fallback_query = local_store\<rparr>"

text \<open>The client after one successful call through the network, made at clock 0 and
  recorded at clock 1.\<close>

definition after_first_call :: "string EnhancedMCPClient" where
  "after_first_call = snd (invoke_tool world_healthy initialized_client ''list_products'' () True 0 1)"

definition orchestrator_with_fallback :: "string MCPOrchestrator" where
  "orchestrator_with_fallback =
     (MCPOrchestrator_init (Some ''db/app.db'') RecoveryStrategy_default)
       \<lparr>enhanced_client := initialized_client\<rparr>"

definition orchestrator_without_fallback :: "string MCPOrchestrator" where
  "orchestrator_without_fallback =
     (MCPOrchestrator_init None RecoveryStrategy_default)\<lparr>enhanced_client := initialized_client\<rparr>"

text \<open>Three failures reported one after the other, at the clock readings 1, 2 and 3.\<close>

definition three_failures :: "string MCPOrchestrator \<Rightarrow> string MCPOrchestrator" where
  "three_failures orch =
     handle_failure 3 ''HTTP 503'' (handle_failure 2 ''HTTP 503'' (handle_failure 1 ''HTTP 503'' orch))"

definition two_calls :: "unit tool_call list" where
  "two_calls = [\<lparr>tool_name = ''get_customer_orders'', params = None\<rparr>,
                \<lparr>tool_name = ''list_products'', params = None\<rparr>]"

text \<open>The first call of \<open>two_calls\<close> gets an error dictionary, the second a result.\<close>

definition first_fails :: "nat \<Rightarrow> exn + string tool_result" where
  "first_fails i = (if i = 0 then Inr (ErrorDict ''HTTP 404: Not Found'') else Inr (ResultDict ''rows''))"

section \<open>Circuit breaker: proofs\<close>

lemma call_failed_thresholds:
  "failure_threshold (call_failed t cb) = failure_threshold cb"
  "success_threshold (call_failed t cb) = success_threshold cb"
  "recovery_timeout (call_failed t cb) = recovery_timeout cb"
  by (simp_all add: call_failed_def cb_open_def Let_def)

lemma call_failed_last: "last_failure_time (call_failed t cb) = Some t"
  by (simp add: call_failed_def cb_open_def Let_def)

lemma call_failed_OPEN: "state cb = OPEN \<Longrightarrow> state (call_failed t cb) = OPEN"
  by (simp add: call_failed_def Let_def)

lemma fail_all_OPEN: "state cb = OPEN \<Longrightarrow> state (fail_all cb ts) = OPEN"
  unfolding fail_all_def
  by (induction ts arbitrary: cb) (simp_all add: call_failed_OPEN)

lemma fail_all_last: "ts \<noteq> [] \<Longrightarrow> last_failure_time (fail_all cb ts) = Some (last ts)"
  unfolding fail_all_def
  by (induction ts arbitrary: cb rule: rev_induct) (simp_all add: call_failed_last)

lemma fail_all_thresholds:
  "failure_threshold (fail_all cb ts) = failure_threshold cb"
  "success_threshold (fail_all cb ts) = success_threshold cb"
  "recovery_timeout (fail_all cb ts) = recovery_timeout cb"
  unfolding fail_all_def
  by (induction ts arbitrary: cb) (simp_all add: call_failed_thresholds)

lemma fail_all_opens:
  "state cb = CLOSED \<Longrightarrow> failure_threshold cb \<le> failure_count cb + int (length ts) \<Longrightarrow>
   ts \<noteq> [] \<Longrightarrow> state (fail_all cb ts) = OPEN"
proof (induction ts arbitrary: cb)
  case Nil
  then show ?case by simp
next
  case (Cons t ts)
  let ?cb = "call_failed t cb"
  have step: "fail_all cb (t # ts) = fail_all ?cb ts"
    by (simp add: fail_all_def)
  show ?case
  proof (cases "failure_threshold cb \<le> failure_count cb + 1")
    case True
    then have "state ?cb = OPEN"
      using Cons.prems(1) by (simp add: call_failed_def cb_open_def Let_def)
    then show ?thesis using step fail_all_OPEN by simp
  next
    case False
    then have c: "state ?cb = CLOSED" and f: "failure_count ?cb = failure_count cb + 1"
      using Cons.prems(1) by (simp_all add: call_failed_def Let_def)
    from False Cons.prems(2) have ne: "ts \<noteq> []" by auto
    have "failure_threshold ?cb \<le> failure_count ?cb + int (length ts)"
      using Cons.prems(2) f by (simp add: call_failed_thresholds)
    from Cons.IH [OF c this ne] show ?thesis using step by simp
  qed
qed

lemma call_succeeded_CLOSED: "state cb = CLOSED \<Longrightarrow> state (call_succeeded t cb) = CLOSED"
  by (simp add: call_succeeded_def)

lemma succeed_all_CLOSED: "state cb = CLOSED \<Longrightarrow> state (succeed_all cb ts) = CLOSED"
  unfolding succeed_all_def
  by (induction ts arbitrary: cb) (simp_all add: call_succeeded_CLOSED)

lemma succeed_all_closes:
  "state cb = HALF_OPEN \<Longrightarrow> success_threshold cb \<le> success_count cb + int (length ts) \<Longrightarrow>
   ts \<noteq> [] \<Longrightarrow> state (succeed_all cb ts) = CLOSED"
proof (induction ts arbitrary: cb)
  case Nil
  then show ?case by simp
next
  case (Cons t ts)
  let ?cb = "call_succeeded t cb"
  have step: "succeed_all cb (t # ts) = succeed_all ?cb ts"
    by (simp add: succeed_all_def)
  show ?case
  proof (cases "success_threshold cb \<le> success_count cb + 1")
    case True
    then have "state ?cb = CLOSED"
      using Cons.prems(1) by (simp add: call_succeeded_def cb_close_def Let_def)
    then show ?thesis using step succeed_all_CLOSED by simp
  next
    case False
    then have c: "state ?cb = HALF_OPEN" and f: "success_count ?cb = success_count cb + 1"
      and th: "success_threshold ?cb = success_threshold cb"
      using Cons.prems(1) by (simp_all add: call_succeeded_def Let_def)
    from False Cons.prems(2) have ne: "ts \<noteq> []" by auto
    have "success_threshold ?cb \<le> success_count ?cb + int (length ts)"
      using Cons.prems(2) f th by simp
    from Cons.IH [OF c this ne] show ?thesis using step by simp
  qed
qed

lemma cb_step_thresholds:
  "failure_threshold (cb_step cb c) = failure_threshold cb"
  "success_threshold (cb_step cb c) = success_threshold cb"
  by (cases c; cases "fst c"; simp add: call_failed_def call_succeeded_def can_execute_def
      cb_open_def cb_close_def cb_half_open_def Let_def)+

lemma cb_step_invariant:
  assumes "1 \<le> failure_threshold cb" and "1 \<le> success_threshold cb"
    and "state cb = CLOSED \<longrightarrow> failure_count cb < failure_threshold cb"
    and "state cb = HALF_OPEN \<longrightarrow> success_count cb < success_threshold cb"
  shows "(state (cb_step cb c) = CLOSED \<longrightarrow> failure_count (cb_step cb c) < failure_threshold cb)
       \<and> (state (cb_step cb c) = HALF_OPEN \<longrightarrow> success_count (cb_step cb c) < success_threshold cb)"
proof (cases c)
  case (Pair k now)
  show ?thesis
  proof (cases k)
    case Call_succeeded
    with Pair assms show ?thesis
      by (cases "state cb") (auto simp: call_succeeded_def cb_close_def Let_def)
  next
    case Call_failed
    with Pair assms show ?thesis
      by (cases "state cb") (auto simp: call_failed_def cb_open_def Let_def)
  next
    case Can_execute
    with Pair assms show ?thesis
      by (cases "state cb") (auto simp: can_execute_def cb_half_open_def)
  qed
qed

lemma cb_step_resets:
  "state (cb_step cb c) \<noteq> state cb \<Longrightarrow> success_count (cb_step cb c) = 0"
proof (cases c)
  case (Pair k now)
  assume "state (cb_step cb c) \<noteq> state cb"
  with Pair show ?thesis
    by (cases k; cases "state cb")
      (auto simp: call_succeeded_def call_failed_def can_execute_def cb_open_def cb_close_def
        cb_half_open_def Let_def split: if_splits)
qed

lemma cb_run_invariant:
  assumes "1 \<le> ft" and "1 \<le> st"
  shows "failure_threshold (cb_run (CircuitBreaker_init ft rt st t0) calls) = ft
       \<and> success_threshold (cb_run (CircuitBreaker_init ft rt st t0) calls) = st
       \<and> (state (cb_run (CircuitBreaker_init ft rt st t0) calls) = CLOSED \<longrightarrow>
            failure_count (cb_run (CircuitBreaker_init ft rt st t0) calls) < ft)
       \<and> (state (cb_run (CircuitBreaker_init ft rt st t0) calls) = HALF_OPEN \<longrightarrow>
            success_count (cb_run (CircuitBreaker_init ft rt st t0) calls) < st)"
proof (induction calls rule: rev_induct)
  case Nil
  from assms show ?case by (simp add: cb_run_def CircuitBreaker_init_def)
next
  case (snoc c calls)
  let ?cb = "cb_run (CircuitBreaker_init ft rt st t0) calls"
  have run: "cb_run (CircuitBreaker_init ft rt st t0) (calls @ [c]) = cb_step ?cb c"
    by (simp add: cb_run_def)
  from snoc assms have pre: "1 \<le> failure_threshold ?cb" "1 \<le> success_threshold ?cb"
    "state ?cb = CLOSED \<longrightarrow> failure_count ?cb < failure_threshold ?cb"
    "state ?cb = HALF_OPEN \<longrightarrow> success_count ?cb < success_threshold ?cb"
    by simp_all
  from cb_step_invariant [OF pre, of c] snoc show ?case
    unfolding run by (simp add: cb_step_thresholds)
qed

text \<open>
  Claim C9, as amended. For a breaker constructed with \<open>failure_threshold \<ge> 1\<close> and
  \<open>success_threshold \<ge> 1\<close>, after any history of \<^verbatim>\<open>call_succeeded\<close>,
  \<^verbatim>\<open>call_failed\<close> and \<^verbatim>\<open>can_execute\<close> calls at any clock readings: a
  CLOSED breaker has \<open>failure_count < failure_threshold\<close>, a HALF\_OPEN breaker has
  \<open>success_count < success_threshold\<close>, and whenever one further call changes the state,
  the new state has \<open>success_count = 0\<close>.
\<close>

theorem breaker_invariant:
  assumes "1 \<le> ft" and "1 \<le> st"
  shows "(state (cb_run (CircuitBreaker_init ft rt st t0) calls) = CLOSED \<longrightarrow>
            failure_count (cb_run (CircuitBreaker_init ft rt st t0) calls) < ft)
       \<and> (state (cb_run (CircuitBreaker_init ft rt st t0) calls) = HALF_OPEN \<longrightarrow>
            success_count (cb_run (CircuitBreaker_init ft rt st t0) calls) < st)
       \<and> (state (cb_step (cb_run (CircuitBreaker_init ft rt st t0) calls) c)
             \<noteq> state (cb_run (CircuitBreaker_init ft rt st t0) calls) \<longrightarrow>
            success_count (cb_step (cb_run (CircuitBreaker_init ft rt st t0) calls) c) = 0)"
  using cb_run_invariant [OF assms, of rt t0 calls] cb_step_resets by blast

text \<open>The invariant at the defaults' shape (thresholds 2 and 2), along a history that
  closes, opens and half-opens the breaker.\<close>

theorem breaker_invariant_witness:
  "state (cb_run (CircuitBreaker_init 2 60 2 0) [(Call_failed, 1), (Call_failed, 2), (Can_execute, 70)]) = HALF_OPEN
   \<and> success_count (cb_run (CircuitBreaker_init 2 60 2 0) [(Call_failed, 1), (Call_failed, 2), (Can_execute, 70)]) < 2
   \<and> state (cb_run (CircuitBreaker_init 2 60 2 0) [(Call_failed, 1)]) = CLOSED
   \<and> failure_count (cb_run (CircuitBreaker_init 2 60 2 0) [(Call_failed, 1)]) < 2
   \<and> state (cb_step (cb_run (CircuitBreaker_init 2 60 2 0) [(Call_failed, 1)]) (Call_failed, 2)) = OPEN
   \<and> success_count (cb_step (cb_run (CircuitBreaker_init 2 60 2 0) [(Call_failed, 1)]) (Call_failed, 2)) = 0"
proof -
  have a: "state (cb_run (CircuitBreaker_init 2 60 2 0) [(Call_failed, 1), (Call_failed, 2), (Can_execute, 70)]) = HALF_OPEN"
    by (simp add: cb_run_def CircuitBreaker_init_def call_failed_def can_execute_def
        should_attempt_recovery_def cb_open_def cb_half_open_def Let_def)
  have b: "state (cb_run (CircuitBreaker_init 2 60 2 0) [(Call_failed, 1)]) = CLOSED"
    by (simp add: cb_run_def CircuitBreaker_init_def call_failed_def Let_def)
  have c: "state (cb_step (cb_run (CircuitBreaker_init 2 60 2 0) [(Call_failed, 1)]) (Call_failed, 2)) = OPEN"
    by (simp add: cb_run_def CircuitBreaker_init_def call_failed_def cb_open_def Let_def)
  show ?thesis
    using a b c
      breaker_invariant [of 2 2 60 0 "[(Call_failed, 1), (Call_failed, 2), (Can_execute, 70)]"]
      breaker_invariant [of 2 2 60 0 "[(Call_failed, 1)]" "(Call_failed, 2)"]
    by simp
qed

text \<open>
  Claim C9 as stated covers every breaker. One constructed with
  \<open>failure_threshold = 0\<close> is CLOSED with \<open>failure_count = 0\<close>, which is not below
  the threshold: the constructor accepts any integer and checks nothing.
\<close>

theorem breaker_invariant_counterexample:
  "state (cb_run (CircuitBreaker_init 0 60000000 2 0) []) = CLOSED
   \<and> \<not> failure_count (cb_run (CircuitBreaker_init 0 60000000 2 0) [])
         < failure_threshold (cb_run (CircuitBreaker_init 0 60000000 2 0) [])"
  by (simp add: cb_run_def CircuitBreaker_init_def)

text \<open>
  Claim C2, as amended. Take a CLOSED breaker (with the non-negative failure count every
  constructed breaker has) whose two thresholds are at least 1. After
  \<open>failure_threshold\<close> consecutive \<^verbatim>\<open>call_failed()\<close> at clock readings
  \<open>ts\<close> the state is OPEN. From there \<^verbatim>\<open>can_execute()\<close> at \<open>now\<close> returns
  false and changes nothing while \<open>now - last ts \<le> recovery_timeout\<close>; the first
  \<^verbatim>\<open>can_execute()\<close> with \<open>now - last ts > recovery_timeout\<close> returns true and
  leaves the breaker HALF\_OPEN, and \<open>success_threshold\<close> consecutive
  \<^verbatim>\<open>call_succeeded()\<close> from there leave it CLOSED.
\<close>

theorem breaker_cycle:
  assumes "state cb = CLOSED" and "0 \<le> failure_count cb"
    and "1 \<le> failure_threshold cb" and "1 \<le> success_threshold cb"
    and "length ts = nat (failure_threshold cb)"
    and "length us = nat (success_threshold cb)"
  shows "state (fail_all cb ts) = OPEN
     \<and> (now - last ts \<le> recovery_timeout cb \<longrightarrow>
          can_execute now (fail_all cb ts) = (False, fail_all cb ts))
     \<and> (now - last ts > recovery_timeout cb \<longrightarrow>
          fst (can_execute now (fail_all cb ts))
        \<and> state (snd (can_execute now (fail_all cb ts))) = HALF_OPEN
        \<and> state (succeed_all (snd (can_execute now (fail_all cb ts))) us) = CLOSED)"
proof -
  let ?o = "fail_all cb ts"
  from assms have ne: "ts \<noteq> []" and ne': "us \<noteq> []" by auto
  from assms have "failure_threshold cb \<le> failure_count cb + int (length ts)" by simp
  from fail_all_opens [OF assms(1) this ne] have op: "state ?o = OPEN" .
  have lf: "last_failure_time ?o = Some (last ts)" using fail_all_last [OF ne] .
  have rt: "recovery_timeout ?o = recovery_timeout cb" by (rule fail_all_thresholds)
  have blocked: "now - last ts \<le> recovery_timeout cb \<Longrightarrow> can_execute now ?o = (False, ?o)"
    using op lf rt by (simp add: can_execute_def should_attempt_recovery_def)
  have probe: "can_execute now ?o = (True, cb_half_open now ?o)"
    if "now - last ts > recovery_timeout cb"
    using that op lf rt by (simp add: can_execute_def should_attempt_recovery_def)
  have h: "state (cb_half_open now ?o) = HALF_OPEN" "success_count (cb_half_open now ?o) = 0"
    "success_threshold (cb_half_open now ?o) = success_threshold cb"
    by (simp_all add: cb_half_open_def fail_all_thresholds)
  have "success_threshold (cb_half_open now ?o) \<le> success_count (cb_half_open now ?o) + int (length us)"
    using h assms by simp
  from succeed_all_closes [OF h(1) this ne']
  have closes: "state (succeed_all (cb_half_open now ?o) us) = CLOSED" .
  show ?thesis using op blocked probe h(1) closes by simp
qed

text \<open>The cycle for thresholds 2 and 2 and a timeout of 60: failures at 1 and 2, a refused
  call at 62 (exactly the timeout after the last failure), a probe at 63, successes at 64
  and 65.\<close>

theorem breaker_cycle_witness:
  "state (fail_all (CircuitBreaker_init 2 60 2 0) [1, 2]) = OPEN
   \<and> can_execute 62 (fail_all (CircuitBreaker_init 2 60 2 0) [1, 2])
       = (False, fail_all (CircuitBreaker_init 2 60 2 0) [1, 2])
   \<and> fst (can_execute 63 (fail_all (CircuitBreaker_init 2 60 2 0) [1, 2]))
   \<and> state (snd (can_execute 63 (fail_all (CircuitBreaker_init 2 60 2 0) [1, 2]))) = HALF_OPEN
   \<and> state (succeed_all (snd (can_execute 63 (fail_all (CircuitBreaker_init 2 60 2 0) [1, 2]))) [64, 65]) = CLOSED"
  using breaker_cycle [of "CircuitBreaker_init 2 60 2 0" "[1, 2]" "[64, 65]" 62]
    breaker_cycle [of "CircuitBreaker_init 2 60 2 0" "[1, 2]" "[64, 65]" 63]
  by (simp add: CircuitBreaker_init_def)

text \<open>
  Claim C2 as stated covers every breaker and lets the breaker through once
  \<open>recovery_timeout\<close> has elapsed. With \<open>failure_threshold = 0\<close> the
  \<open>failure_threshold\<close> consecutive failures are no call at all, and the breaker is
  still CLOSED. And with thresholds 2 and 2 and a timeout of 60, after failures at 1 and 2
  the call at 62, when exactly the timeout has elapsed, is still refused and leaves the
  breaker OPEN: the comparison in \<^verbatim>\<open>_should_attempt_recovery\<close> is strict.
\<close>

theorem breaker_cycle_counterexample:
  "state (CircuitBreaker_init 0 60000000 2 0) = CLOSED
   \<and> length ([] :: int list) = nat (failure_threshold (CircuitBreaker_init 0 60000000 2 0))
   \<and> state (fail_all (CircuitBreaker_init 0 60000000 2 0) []) \<noteq> OPEN
   \<and> 62 - 2 = recovery_timeout (fail_all (CircuitBreaker_init 2 60 2 0) [1, 2])
   \<and> fst (can_execute 62 (fail_all (CircuitBreaker_init 2 60 2 0) [1, 2])) = False
   \<and> state (snd (can_execute 62 (fail_all (CircuitBreaker_init 2 60 2 0) [1, 2]))) = OPEN"
  by (simp add: fail_all_def CircuitBreaker_init_def call_failed_def cb_open_def can_execute_def
      should_attempt_recovery_def Let_def)

section \<open>Client: proofs\<close>


lemma update_metric_fields:
  "posts (update_metric name f c) = posts c"
  "client_pool (update_metric name f c) = client_pool c"
  "pool_index (update_metric name f c) = pool_index c"
  "cache (update_metric name f c) = cache c"
  "cache_ttl (update_metric name f c) = cache_ttl c"
  "EnhancedMCPClient.max_retries (update_metric name f c) = EnhancedMCPClient.max_retries c"
  by (simp_all add: update_metric_def split: option.split)

lemma record_fields:
  "posts (record_failure name msg t c) = posts c"
  "client_pool (record_failure name msg t c) = client_pool c"
  "cache (record_failure name msg t c) = cache c"
  "cache_ttl (record_failure name msg t c) = cache_ttl c"
  "EnhancedMCPClient.max_retries (record_failure name msg t c) = EnhancedMCPClient.max_retries c"
  "posts (record_success name t c) = posts c"
  "client_pool (record_success name t c) = client_pool c"
  "cache (record_success name t c) = cache c"
  "cache_ttl (record_success name t c) = cache_ttl c"
  "EnhancedMCPClient.max_retries (record_success name t c) = EnhancedMCPClient.max_retries c"
  by (simp_all add: record_failure_def record_success_def update_metric_fields)

lemma get_client_cases:
  "client_pool c = 0 \<Longrightarrow> get_client c = Inl (RuntimeError ''Client pool not initialized'')"
  "client_pool c \<noteq> 0 \<Longrightarrow> get_client c = Inr (c\<lparr>pool_index := (pool_index c + 1) mod client_pool c\<rparr>)"
  by (simp_all add: get_client_def)

text \<open>One attempt, by what the POST meets.\<close>

lemma attempts_no_pool:
  "client_pool c = 0 \<Longrightarrow>
   attempts w name key fin c (a # rest) =
     (Some (ErrorDict ''Client pool not initialized''),
      record_failure name ''Client pool not initialized'' fin c)"
  by (simp add: get_client_cases)

lemma posted_fields:
  "posts (posted c) = Suc (posts c)"
  "client_pool (posted c) = client_pool c"
  "cache (posted c) = cache c"
  "cache_ttl (posted c) = cache_ttl c"
  "metrics (posted c) = metrics c"
  "EnhancedMCPClient.max_retries (posted c) = EnhancedMCPClient.max_retries c"
  by (simp_all add: posted_def)

lemma attempts_step:
  assumes "client_pool c \<noteq> 0"
  shows "attempts w name key fin c (a # rest) =
     (case post w (posts c) of
        Response status_code txt body \<Rightarrow>
          if status_code = 200 then
            (case body of
               Inl e \<Rightarrow> (Some (ErrorDict (exn_str e)), record_failure name (exn_str e) fin (posted c))
             | Inr j \<Rightarrow>
                 (Some (ResultDict j),
                  case key of
                    Some k \<Rightarrow> set_cached_result (record_success name fin (posted c)) k (ResultDict j) fin
                  | None \<Rightarrow> record_success name fin (posted c)))
          else if status_code \<ge> 500 then attempts w name key fin (posted c) rest
          else (Some (ErrorDict (''HTTP '' @ str_nat status_code @ '': '' @ txt)),
                record_failure name (''HTTP '' @ str_nat status_code @ '': '' @ txt) fin (posted c))
      | Raises (RequestError m) \<Rightarrow>
          if a < EnhancedMCPClient.max_retries c - 1 then attempts w name key fin (posted c) rest
          else attempts w name key fin (record_failure name m fin (posted c)) rest
      | Raises e \<Rightarrow> (Some (ErrorDict (exn_str e)), record_failure name (exn_str e) fin (posted c)))"
  using assms
  by (simp add: get_client_cases posted_def Let_def
      split: http_event.split exn.split sum.split option.split)

declare attempts.simps(2) [simp del]

lemma attempts_preserves:
  "attempts w name key fin c xs = (r, c') \<Longrightarrow>
   client_pool c' = client_pool c \<and> cache_ttl c' = cache_ttl c
   \<and> EnhancedMCPClient.max_retries c' = EnhancedMCPClient.max_retries c \<and> posts c \<le> posts c'"
proof (induction xs arbitrary: c)
  case Nil
  then show ?case by simp
next
  case (Cons a xs)
  show ?case
  proof (cases "client_pool c = 0")
    case True
    with Cons.prems show ?thesis by (auto simp: attempts_no_pool record_fields)
  next
    case False
    have ihp: "client_pool c' = client_pool c \<and> cache_ttl c' = cache_ttl c
       \<and> EnhancedMCPClient.max_retries c' = EnhancedMCPClient.max_retries c \<and> posts c \<le> posts c'"
      if "attempts w name key fin (posted c) xs = (r, c')"
      using Cons.IH [OF that] by (simp add: posted_fields)
    have ihf: "client_pool c' = client_pool c \<and> cache_ttl c' = cache_ttl c
       \<and> EnhancedMCPClient.max_retries c' = EnhancedMCPClient.max_retries c \<and> posts c \<le> posts c'"
      if "attempts w name key fin (record_failure name m fin (posted c)) xs = (r, c')" for m
      using Cons.IH [OF that] by (simp add: posted_fields record_fields)
    from Cons.prems have run: "(case post w (posts c) of
        Response status_code txt body \<Rightarrow>
          if status_code = 200 then
            (case body of
               Inl e \<Rightarrow> (Some (ErrorDict (exn_str e)), record_failure name (exn_str e) fin (posted c))
             | Inr j \<Rightarrow>
                 (Some (ResultDict j),
                  case key of
                    Some k \<Rightarrow> set_cached_result (record_success name fin (posted c)) k (ResultDict j) fin
                  | None \<Rightarrow> record_success name fin (posted c)))
          else if status_code \<ge> 500 then attempts w name key fin (posted c) xs
          else (Some (ErrorDict (''HTTP '' @ str_nat status_code @ '': '' @ txt)),
                record_failure name (''HTTP '' @ str_nat status_code @ '': '' @ txt) fin (posted c))
      | Raises (RequestError m) \<Rightarrow>
          if a < EnhancedMCPClient.max_retries c - 1 then attempts w name key fin (posted c) xs
          else attempts w name key fin (record_failure name m fin (posted c)) xs
      | Raises e \<Rightarrow> (Some (ErrorDict (exn_str e)), record_failure name (exn_str e) fin (posted c)))
      = (r, c')"
      unfolding attempts_step [OF False] .
    show ?thesis
    proof (cases "post w (posts c)")
      case (Response sc tx bd)
      with run ihp show ?thesis
        by (cases bd; cases key)
          (auto split: if_splits simp: record_fields posted_fields set_cached_result_def)
    next
      case (Raises e)
      with run ihp ihf show ?thesis
        by (cases e) (auto split: if_splits simp: record_fields posted_fields)
    qed
  qed
qed

lemma attempts_posts_grow:
  "client_pool c \<noteq> 0 \<Longrightarrow> xs \<noteq> [] \<Longrightarrow> posts c < posts (snd (attempts w name key fin c xs))"
proof (cases xs)
  case Nil
  assume "xs \<noteq> []" with Nil show ?thesis by simp
next
  case (Cons a rest)
  assume pool: "client_pool c \<noteq> 0"
  have mono: "\<And>d. posts d \<le> posts (snd (attempts w name key fin d rest))"
    using attempts_preserves [of w name key fin _ rest] by (metis prod.collapse)
  have m1: "Suc (posts c) \<le> posts (snd (attempts w name key fin (posted c) rest))"
    using mono [of "posted c"] by (simp add: posted_fields)
  have m2: "\<And>m. Suc (posts c) \<le> posts (snd (attempts w name key fin (record_failure name m fin (posted c)) rest))"
    using mono [of "record_failure name _ fin (posted c)"] by (simp add: posted_fields record_fields)
  show ?thesis
    unfolding Cons attempts_step [OF pool]
    using m1 m2
    by (auto split: http_event.splits exn.splits sum.splits option.splits
        simp: record_fields posted_fields set_cached_result_def less_eq_Suc_le)
qed

lemma attempts_grew_pool:
  "attempts w name key fin c xs = (r, c') \<Longrightarrow> posts c < posts c' \<Longrightarrow> client_pool c \<noteq> 0 \<and> xs \<noteq> []"
proof (cases xs)
  case Nil
  assume "attempts w name key fin c xs = (r, c')" "posts c < posts c'"
  with Nil show ?thesis by simp
next
  case (Cons a rest)
  assume run: "attempts w name key fin c xs = (r, c')" and grew: "posts c < posts c'"
  have "client_pool c \<noteq> 0"
  proof
    assume "client_pool c = 0"
    with run grew Cons show False by (auto simp: attempts_no_pool record_fields)
  qed
  with Cons show ?thesis by simp
qed

lemma attempts_success_cached:
  "attempts w name (Some k) fin c xs = (Some (ResultDict j), c') \<Longrightarrow>
   cache c' k = Some (ResultDict j, fin)"
proof (induction xs arbitrary: c)
  case Nil
  then show ?case by simp
next
  case (Cons a xs)
  show ?case
  proof (cases "client_pool c = 0")
    case True
    with Cons.prems show ?thesis by (simp add: attempts_no_pool)
  next
    case False
    have ih: "\<And>d. attempts w name (Some k) fin d xs = (Some (ResultDict j), c') \<Longrightarrow>
       cache c' k = Some (ResultDict j, fin)"
      using Cons.IH by blast
    from Cons.prems show ?thesis
      unfolding attempts_step [OF False]
      by (auto split: http_event.splits exn.splits sum.splits if_splits
          simp: set_cached_result_def dest: ih)
  qed
qed


lemma attempts_range_nonempty:
  "1 \<le> m \<Longrightarrow> map int [0..<nat m] = 0 # map int [1..<nat m]"
  by (simp add: upt_conv_Cons)

lemma uncached_start_fields:
  "posts (update_metric name f (if metrics c name = None then c\<lparr>metrics := (metrics c)(name \<mapsto> v)\<rparr> else c)) = posts c"
  "client_pool (update_metric name f (if metrics c name = None then c\<lparr>metrics := (metrics c)(name \<mapsto> v)\<rparr> else c)) = client_pool c"
  "cache (update_metric name f (if metrics c name = None then c\<lparr>metrics := (metrics c)(name \<mapsto> v)\<rparr> else c)) = cache c"
  "cache_ttl (update_metric name f (if metrics c name = None then c\<lparr>metrics := (metrics c)(name \<mapsto> v)\<rparr> else c)) = cache_ttl c"
  "EnhancedMCPClient.max_retries (update_metric name f (if metrics c name = None then c\<lparr>metrics := (metrics c)(name \<mapsto> v)\<rparr> else c)) = EnhancedMCPClient.max_retries c"
  by (simp_all add: update_metric_fields)

lemma invoke_uncached_preserves:
  assumes "invoke_uncached w c name key fin = (r, c')"
  shows "client_pool c' = client_pool c \<and> cache_ttl c' = cache_ttl c
       \<and> EnhancedMCPClient.max_retries c' = EnhancedMCPClient.max_retries c \<and> posts c \<le> posts c'"
proof -
  let ?c3 = "update_metric name (\<lambda>m. m\<lparr>execution_count := execution_count m + 1\<rparr>)
       (if metrics c name = None then c\<lparr>metrics := (metrics c)(name \<mapsto> MCPToolMetrics_init name)\<rparr> else c)"
  obtain q c4 where run: "attempts w name key fin ?c3 (map int [0..<nat (EnhancedMCPClient.max_retries ?c3)]) = (q, c4)"
    by (cases "attempts w name key fin ?c3 (map int [0..<nat (EnhancedMCPClient.max_retries ?c3)])")
  from attempts_preserves [OF run]
  have p: "client_pool c4 = client_pool c" "cache_ttl c4 = cache_ttl c"
    "EnhancedMCPClient.max_retries c4 = EnhancedMCPClient.max_retries c" "posts c \<le> posts c4"
    by (simp_all add: uncached_start_fields)
  from assms run have "c' = c4 \<or> (\<exists>msg. c' = record_failure name msg fin c4)"
    by (auto simp: invoke_uncached_def Let_def split: option.splits)
  with p show ?thesis by (auto simp: record_fields)
qed

lemma invoke_uncached_result:
  assumes "invoke_uncached w c name key fin = (Inr (ResultDict j), c')"
  shows "attempts w name key fin
           (update_metric name (\<lambda>m. m\<lparr>execution_count := execution_count m + 1\<rparr>)
             (if metrics c name = None then c\<lparr>metrics := (metrics c)(name \<mapsto> MCPToolMetrics_init name)\<rparr> else c))
           (map int [0..<nat (EnhancedMCPClient.max_retries c)]) = (Some (ResultDict j), c')"
proof -
  let ?c3 = "update_metric name (\<lambda>m. m\<lparr>execution_count := execution_count m + 1\<rparr>)
       (if metrics c name = None then c\<lparr>metrics := (metrics c)(name \<mapsto> MCPToolMetrics_init name)\<rparr> else c)"
  have mr: "EnhancedMCPClient.max_retries ?c3 = EnhancedMCPClient.max_retries c"
    by (simp add: uncached_start_fields)
  obtain q c4 where run: "attempts w name key fin ?c3 (map int [0..<nat (EnhancedMCPClient.max_retries ?c3)]) = (q, c4)"
    by (cases "attempts w name key fin ?c3 (map int [0..<nat (EnhancedMCPClient.max_retries ?c3)])")
  from assms run have "q = Some (ResultDict j) \<and> c4 = c'"
    by (auto simp: invoke_uncached_def Let_def split: option.splits)
  with run mr show ?thesis by simp
qed

lemma invoke_uncached_posts_grow:
  assumes "client_pool c \<noteq> 0" and "1 \<le> EnhancedMCPClient.max_retries c"
  shows "posts c < posts (snd (invoke_uncached w c name key fin))"
proof -
  let ?c3 = "update_metric name (\<lambda>m. m\<lparr>execution_count := execution_count m + 1\<rparr>)
       (if metrics c name = None then c\<lparr>metrics := (metrics c)(name \<mapsto> MCPToolMetrics_init name)\<rparr> else c)"
  let ?xs = "map int [0..<nat (EnhancedMCPClient.max_retries ?c3)]"
  have pool: "client_pool ?c3 \<noteq> 0" using assms(1) by (simp add: uncached_start_fields)
  have ne: "?xs \<noteq> []" using assms(2) by (simp add: uncached_start_fields)
  have "posts ?c3 < posts (snd (attempts w name key fin ?c3 ?xs))"
    by (rule attempts_posts_grow [OF pool ne])
  then have g: "posts c < posts (snd (attempts w name key fin ?c3 ?xs))"
    by (simp add: uncached_start_fields)
  obtain q c4 where run: "attempts w name key fin ?c3 ?xs = (q, c4)"
    by (cases "attempts w name key fin ?c3 ?xs")
  with g have "posts c < posts c4" by simp
  moreover have "snd (invoke_uncached w c name key fin) = c4
      \<or> (\<exists>msg. snd (invoke_uncached w c name key fin) = record_failure name msg fin c4)"
    using run by (auto simp: invoke_uncached_def Let_def split: option.splits)
  ultimately show ?thesis by (auto simp: record_fields)
qed

text \<open>
  Claim C6, as amended. Take a call to \<^verbatim>\<open>invoke_tool\<close> with caching enabled that
  went to the network and returned a successful result, recorded at clock \<open>fin1\<close>. A
  second call with the same tool and parameters at clock \<open>now2\<close> returns the identical
  payload and leaves the client as it was (so issues no POST) when
  \<open>now2 - fin1 < cache_ttl\<close>; when \<open>now2 - fin1 \<ge> cache_ttl\<close> the entry is
  treated as absent and the call issues at least one POST.
\<close>

theorem cache_hit_within_ttl:
  assumes dumps: "json_dumps w ps = Inr s"
    and first: "invoke_tool w c name ps True now1 fin1 = (Inr (ResultDict j), c1)"
    and network: "posts c < posts c1"
  shows "(now2 - fin1 < cache_ttl c \<longrightarrow>
           invoke_tool w c1 name ps True now2 fin2 = (Inr (ResultDict j), c1))
       \<and> (cache_ttl c \<le> now2 - fin1 \<longrightarrow>
           posts c1 < posts (snd (invoke_tool w c1 name ps True now2 fin2)))"
proof -
  let ?k = "name @ '':'' @ s"
  have key: "get_cache_key w name ps = Inr ?k"
    using dumps by (simp add: get_cache_key_def)
  obtain hit c0 where look: "get_cached_result c ?k now1 = (hit, c0)"
    by (cases "get_cached_result c ?k now1")
  have c0: "client_pool c0 = client_pool c" "cache_ttl c0 = cache_ttl c"
    "EnhancedMCPClient.max_retries c0 = EnhancedMCPClient.max_retries c" "posts c0 = posts c"
    using look by (auto simp: get_cached_result_def split: option.splits if_splits)
  have miss: "hit = None"
  proof (cases hit)
    case None
    then show ?thesis .
  next
    case (Some cached)
    with first key look have "c1 = c0" by (simp add: invoke_tool_def)
    with network c0 show ?thesis by simp
  qed
  with first key look have unc: "invoke_uncached w c0 name (Some ?k) fin1 = (Inr (ResultDict j), c1)"
    by (simp add: invoke_tool_def)
  from invoke_uncached_preserves [OF unc] c0
  have c1: "client_pool c1 = client_pool c" "cache_ttl c1 = cache_ttl c"
    "EnhancedMCPClient.max_retries c1 = EnhancedMCPClient.max_retries c"
    by simp_all
  note run = invoke_uncached_result [OF unc]
  from attempts_success_cached [OF run] have entry: "cache c1 ?k = Some (ResultDict j, fin1)" .
  from attempts_preserves [OF run] network c0
  have "posts (update_metric name (\<lambda>m. m\<lparr>execution_count := execution_count m + 1\<rparr>)
             (if metrics c0 name = None
              then c0\<lparr>metrics := (metrics c0)(name \<mapsto> MCPToolMetrics_init name)\<rparr> else c0)) < posts c1"
    by (simp add: uncached_start_fields)
  from attempts_grew_pool [OF run this]
  have live: "client_pool c \<noteq> 0" "1 \<le> EnhancedMCPClient.max_retries c"
    using c0 by (auto simp: uncached_start_fields)
  have hit2: "invoke_tool w c1 name ps True now2 fin2 = (Inr (ResultDict j), c1)"
    if "now2 - fin1 < cache_ttl c"
    using that key entry c1 by (simp add: invoke_tool_def get_cached_result_def)
  have miss2: "posts c1 < posts (snd (invoke_tool w c1 name ps True now2 fin2))"
    if "cache_ttl c \<le> now2 - fin1"
  proof -
    let ?d = "c1\<lparr>cache := (cache c1)(?k := None)\<rparr>"
    have "invoke_tool w c1 name ps True now2 fin2 = invoke_uncached w ?d name (Some ?k) fin2"
      using that key entry c1 by (simp add: invoke_tool_def get_cached_result_def)
    moreover have "posts ?d < posts (snd (invoke_uncached w ?d name (Some ?k) fin2))"
      by (rule invoke_uncached_posts_grow) (use live c1 in simp_all)
    ultimately show ?thesis by simp
  qed
  show ?thesis using hit2 miss2 by blast
qed


lemma first_call_result: "fst (invoke_tool world_healthy initialized_client ''list_products'' () True 0 1) = Inr (ResultDict ''rows'')"
  by code_simp

lemma first_call_posted: "posts initialized_client < posts after_first_call"
  unfolding after_first_call_def by code_simp

lemma initialized_ttl: "cache_ttl initialized_client = 300000000"
  by code_simp

text \<open>With the default ttl of five minutes: a second call 299.999999 seconds after the
  first one's insertion is served from the cache, one exactly five minutes after it goes to
  the network.\<close>

theorem cache_hit_within_ttl_witness:
  "invoke_tool world_healthy after_first_call ''list_products'' () True 300000000 300000005
     = (Inr (ResultDict ''rows''), after_first_call)
   \<and> posts after_first_call
       < posts (snd (invoke_tool world_healthy after_first_call ''list_products'' () True 300000001 300000005))"
proof -
  have d: "json_dumps world_healthy () = Inr ''{}''" by (simp add: world_healthy_def)
  have f: "invoke_tool world_healthy initialized_client ''list_products'' () True 0 1
             = (Inr (ResultDict ''rows''), after_first_call)"
    using first_call_result by (simp add: after_first_call_def prod_eq_iff)
  show ?thesis
    using cache_hit_within_ttl [OF d f first_call_posted, of 300000000 300000005]
      cache_hit_within_ttl [OF d f first_call_posted, of 300000001 300000005] initialized_ttl
    by simp
qed

text \<open>
  Claim C6 as stated covers every pair of calls. When the first call fails (here with a
  404) nothing is cached, and a second call two microseconds later issues a POST of its
  own.
\<close>

theorem cache_counterexample:
  "posts (snd (invoke_tool world_404 initialized_client ''list_products'' () True 0 1))
     < posts (snd (invoke_tool world_404
          (snd (invoke_tool world_404 initialized_client ''list_products'' () True 0 1))
          ''list_products'' () True 2 3))
   \<and> 2 - 0 < cache_ttl initialized_client"
  by code_simp

text \<open>
  Claim C5 at a server that refuses every connection
  (\<^verbatim>\<open>httpx.RequestError\<close> on each of the three attempts): one call raises
  \<^verbatim>\<open>execution_count\<close> from 0 to 1 and \<^verbatim>\<open>failure_count\<close> from 0 to 2.
  The last attempt records the failure in its handler and the code after the loop records
  it again.
\<close>

theorem metrics_double_counted:
  "fst (invoke_tool world_refusing initialized_client ''list_products'' () True 0 1)
     = Inr (ErrorDict ''Failed after 3 attempts'')
   \<and> map_option MCPToolMetrics.execution_count (metrics initialized_client ''list_products'') = Some 0
   \<and> map_option MCPToolMetrics.failure_count (metrics initialized_client ''list_products'') = Some 0
   \<and> map_option MCPToolMetrics.execution_count
        (metrics (snd (invoke_tool world_refusing initialized_client ''list_products'' () True 0 1))
           ''list_products'') = Some 1
   \<and> map_option MCPToolMetrics.success_count
        (metrics (snd (invoke_tool world_refusing initialized_client ''list_products'' () True 0 1))
           ''list_products'') = Some 0
   \<and> map_option MCPToolMetrics.failure_count
        (metrics (snd (invoke_tool world_refusing initialized_client ''list_products'' () True 0 1))
           ''list_products'') = Some 2"
  by code_simp


section \<open>Client: the execution count\<close>

lemma update_metric_other_count:
  assumes "\<And>m. execution_count (f m) = execution_count m"
  shows "map_option execution_count (metrics (update_metric name f c) name)
     = map_option execution_count (metrics c name)"
  using assms by (simp add: update_metric_def split: option.split)

lemma record_keeps_execution_count:
  "map_option execution_count (metrics (record_failure name msg t c) name)
     = map_option execution_count (metrics c name)"
  "map_option execution_count (metrics (record_success name t c) name)
     = map_option execution_count (metrics c name)"
  by (simp_all add: record_failure_def record_success_def update_metric_other_count)

lemma attempts_keep_execution_count:
  "map_option execution_count (metrics (snd (attempts w name key fin c xs)) name)
     = map_option execution_count (metrics c name)"
proof (induction xs arbitrary: c)
  case Nil
  then show ?case by simp
next
  case (Cons a xs)
  show ?case
  proof (cases "client_pool c = 0")
    case True
    then show ?thesis by (simp add: attempts_no_pool record_keeps_execution_count)
  next
    case False
    have ihp: "map_option execution_count (metrics (snd (attempts w name key fin (posted c) xs)) name)
        = map_option execution_count (metrics c name)"
      using Cons.IH [of "posted c"] by (simp add: posted_fields)
    have ihf: "map_option execution_count
          (metrics (snd (attempts w name key fin (record_failure name m fin (posted c)) xs)) name)
        = map_option execution_count (metrics c name)" for m
      using Cons.IH [of "record_failure name m fin (posted c)"]
      by (simp add: posted_fields record_keeps_execution_count)
    show ?thesis
    proof (cases "post w (posts c)")
      case (Response sc tx bd)
      with ihp show ?thesis
        unfolding attempts_step [OF False]
        by (cases bd; cases key)
          (simp_all add: record_keeps_execution_count posted_fields set_cached_result_def)
    next
      case (Raises e)
      with ihp ihf show ?thesis
        unfolding attempts_step [OF False]
        by (cases e) (simp_all add: record_keeps_execution_count posted_fields)
    qed
  qed
qed

lemma invoke_uncached_execution_count:
  "map_option execution_count (metrics (snd (invoke_uncached w c name key fin)) name)
     = Some (case metrics c name of None \<Rightarrow> 1 | Some m \<Rightarrow> execution_count m + 1)"
proof -
  let ?c3 = "update_metric name (\<lambda>m. m\<lparr>execution_count := execution_count m + 1\<rparr>)
       (if metrics c name = None then c\<lparr>metrics := (metrics c)(name \<mapsto> MCPToolMetrics_init name)\<rparr> else c)"
  let ?xs = "map int [0..<nat (EnhancedMCPClient.max_retries ?c3)]"
  have start: "map_option execution_count (metrics ?c3 name)
      = Some (case metrics c name of None \<Rightarrow> 1 | Some m \<Rightarrow> execution_count m + 1)"
    by (simp add: update_metric_def MCPToolMetrics_init_def split: option.split)
  obtain q c4 where run: "attempts w name key fin ?c3 ?xs = (q, c4)"
    by (cases "attempts w name key fin ?c3 ?xs")
  from attempts_keep_execution_count [where w = w and name = name and key = key and fin = fin
      and c = ?c3 and xs = ?xs] run start
  have c4: "map_option execution_count (metrics c4 name)
      = Some (case metrics c name of None \<Rightarrow> 1 | Some m \<Rightarrow> execution_count m + 1)"
    by simp
  have "snd (invoke_uncached w c name key fin) = c4
      \<or> (\<exists>msg. snd (invoke_uncached w c name key fin) = record_failure name msg fin c4)"
    using run by (auto simp: invoke_uncached_def Let_def split: option.splits)
  then show ?thesis
  proof
    assume "snd (invoke_uncached w c name key fin) = c4"
    with c4 show ?thesis by simp
  next
    assume "\<exists>msg. snd (invoke_uncached w c name key fin) = record_failure name msg fin c4"
    then obtain msg where "snd (invoke_uncached w c name key fin) = record_failure name msg fin c4" ..
    then show ?thesis
      using record_keeps_execution_count(1) [of name msg fin c4] c4 by simp
  qed
qed

section \<open>Classifier: proofs\<close>

text \<open>
  Claim C7, as amended. The classifier gives every message the one type that the ordered
  table \<open>category_terms\<close> (CONNECTION, TIMEOUT, VALIDATION, RATE\_LIMIT, AUTH, SERVER)
  gives its lower-cased text: the first category with a term in the text, UNKNOWN when
  there is none. So a message with a connection term is CONNECTION whatever else it
  contains, and a message with one of the server terms \<^verbatim>\<open>server error\<close>,
  \<^verbatim>\<open>500\<close>, \<^verbatim>\<open>502\<close>, \<^verbatim>\<open>503\<close> and no term of an earlier category
  is SERVER.
\<close>

theorem classify_error_first_match:
  "classify_error msg = first_match category_terms (lower msg)
   \<and> (any_term_in [''connection'', ''connect'', ''network''] (lower msg) \<longrightarrow>
        classify_error msg = CONNECTION_ERROR)
   \<and> (any_term_in [''server error'', ''500'', ''502'', ''503''] (lower msg)
        \<and> \<not> any_term_in earlier_terms (lower msg) \<longrightarrow>
        classify_error msg = SERVER_ERROR)"
proof -
  have a: "classify_error msg = first_match category_terms (lower msg)"
    by (simp add: classify_error_def category_terms_def Let_def)
  have e: "\<not> any_term_in earlier_terms s \<Longrightarrow> first_match (butlast category_terms) s = UNKNOWN_ERROR" for s
    by (simp add: earlier_terms_def category_terms_def any_term_in_def)
  have s: "any_term_in [''server error'', ''500'', ''502'', ''503''] (lower msg) \<Longrightarrow>
      \<not> any_term_in earlier_terms (lower msg) \<Longrightarrow> classify_error msg = SERVER_ERROR"
    unfolding a by (simp add: earlier_terms_def category_terms_def any_term_in_def)
  show ?thesis using a s by (simp add: category_terms_def)
qed

text \<open>A message with a connection term and a timeout term is CONNECTION; a 503 with no
  earlier term is SERVER.\<close>

theorem classify_error_first_match_witness:
  "classify_error ''Connection timed out'' = CONNECTION_ERROR
   \<and> any_term_in [''timeout'', ''timed out''] (lower ''Connection timed out'')
   \<and> classify_error ''HTTP 503: Service Unavailable'' = SERVER_ERROR"
proof -
  have c: "any_term_in [''connection'', ''connect'', ''network''] (lower ''Connection timed out'')"
    by code_simp
  have t: "any_term_in [''timeout'', ''timed out''] (lower ''Connection timed out'')"
    by code_simp
  have s: "any_term_in [''server error'', ''500'', ''502'', ''503''] (lower ''HTTP 503: Service Unavailable'')"
    by code_simp
  have n: "\<not> any_term_in earlier_terms (lower ''HTTP 503: Service Unavailable'')"
    by code_simp
  show ?thesis
    using classify_error_first_match [of "''Connection timed out''"]
      classify_error_first_match [of "''HTTP 503: Service Unavailable''"] c t s n
    by blast
qed

text \<open>
  Claim C7 as stated promises SERVER for every 5xx term. The status 504 is a 5xx term,
  the message has no term of an earlier category, and the classifier answers UNKNOWN: its
  list of server terms holds only 500, 502 and 503.
\<close>

theorem classify_error_counterexample:
  "mentions_5xx (lower ''HTTP 504: Bad Gateway'')
   \<and> \<not> any_term_in earlier_terms (lower ''HTTP 504: Bad Gateway'')
   \<and> classify_error ''HTTP 504: Bad Gateway'' = UNKNOWN_ERROR"
  by code_simp

section \<open>Orchestrator: proofs\<close>

lemma attempts_all_5xx:
  assumes "\<forall>n. \<exists>sc tx bd. post w n = Response sc tx bd \<and> 500 \<le> sc"
  shows "client_pool c \<noteq> 0 \<Longrightarrow> fst (attempts w name key fin c xs) = None"
proof (induction xs arbitrary: c)
  case Nil
  then show ?case by simp
next
  case (Cons a xs)
  from assms obtain sc tx bd where r: "post w (posts c) = Response sc tx bd" "500 \<le> sc"
    by blast
  have "client_pool (posted c) \<noteq> 0" using Cons.prems by (simp add: posted_fields)
  from Cons.IH [OF this] r show ?case
    unfolding attempts_step [OF Cons.prems] by simp
qed

lemma invoke_uncached_exhausted:
  assumes "\<forall>n. \<exists>sc tx bd. post w n = Response sc tx bd \<and> 500 \<le> sc"
    and "client_pool c \<noteq> 0"
  shows "fst (invoke_uncached w c name key fin)
     = Inr (ErrorDict (''Failed after '' @ str_int (EnhancedMCPClient.max_retries c) @ '' attempts''))"
proof -
  let ?c3 = "update_metric name (\<lambda>m. m\<lparr>execution_count := execution_count m + 1\<rparr>)
       (if metrics c name = None then c\<lparr>metrics := (metrics c)(name \<mapsto> MCPToolMetrics_init name)\<rparr> else c)"
  let ?xs = "map int [0..<nat (EnhancedMCPClient.max_retries ?c3)]"
  have "client_pool ?c3 \<noteq> 0" using assms(2) by (simp add: uncached_start_fields)
  from attempts_all_5xx [OF assms(1) this]
  have "fst (attempts w name key fin ?c3 ?xs) = None" .
  then obtain c4 where run: "attempts w name key fin ?c3 ?xs = (None, c4)"
    by (cases "attempts w name key fin ?c3 ?xs") simp
  from attempts_preserves [OF run]
  have "EnhancedMCPClient.max_retries c4 = EnhancedMCPClient.max_retries c"
    by (simp add: uncached_start_fields)
  with run show ?thesis by (simp add: invoke_uncached_def Let_def)
qed

lemma invoke_uncached_client_error:
  assumes "client_pool c \<noteq> 0" and "1 \<le> EnhancedMCPClient.max_retries c"
    and "post w (posts c) = Response sc tx bd" and "sc \<noteq> 200" and "sc < 500"
  shows "fst (invoke_uncached w c name key fin)
     = Inr (ErrorDict (''HTTP '' @ str_nat sc @ '': '' @ tx))"
proof -
  let ?c3 = "update_metric name (\<lambda>m. m\<lparr>execution_count := execution_count m + 1\<rparr>)
       (if metrics c name = None then c\<lparr>metrics := (metrics c)(name \<mapsto> MCPToolMetrics_init name)\<rparr> else c)"
  have pool: "client_pool ?c3 \<noteq> 0" using assms(1) by (simp add: uncached_start_fields)
  have p: "posts ?c3 = posts c" by (simp add: uncached_start_fields)
  have xs: "map int [0..<nat (EnhancedMCPClient.max_retries ?c3)]
      = 0 # map int [1..<nat (EnhancedMCPClient.max_retries ?c3)]"
    by (rule attempts_range_nonempty) (use assms(2) in \<open>simp add: uncached_start_fields\<close>)
  have "fst (attempts w name key fin ?c3 (map int [0..<nat (EnhancedMCPClient.max_retries ?c3)]))
      = Some (ErrorDict (''HTTP '' @ str_nat sc @ '': '' @ tx))"
    unfolding xs attempts_step [OF pool] p using assms(3-5) by simp
  then obtain c4 where
    "attempts w name key fin ?c3 (map int [0..<nat (EnhancedMCPClient.max_retries ?c3)])
       = (Some (ErrorDict (''HTTP '' @ str_nat sc @ '': '' @ tx)), c4)"
    by (cases "attempts w name key fin ?c3 (map int [0..<nat (EnhancedMCPClient.max_retries ?c3)])")
      simp
  then show ?thesis
    unfolding invoke_uncached_def Let_def by simp
qed

lemma invoke_tool_miss:
  assumes "cache_miss w c name ps use_cache"
  shows "\<exists>key. invoke_tool w c name ps use_cache now fin = invoke_uncached w c name key fin"
proof (cases use_cache)
  case False
  then have "invoke_tool w c name ps use_cache now fin = invoke_uncached w c name None fin"
    by (simp add: invoke_tool_def)
  then show ?thesis ..
next
  case True
  with assms obtain s where s: "json_dumps w ps = Inr s" "cache c (name @ '':'' @ s) = None"
    by (auto simp: cache_miss_def)
  with True have "invoke_tool w c name ps use_cache now fin
      = invoke_uncached w c name (Some (name @ '':'' @ s)) fin"
    by (simp add: invoke_tool_def get_cache_key_def get_cached_result_def)
  then show ?thesis ..
qed

lemma primary_first_attempt:
  assumes "1 \<le> RecoveryStrategy.max_retries (recovery_strategy orch)"
    and "invoke_tool w (enhanced_client orch) name ps (server_type \<noteq> []) (fst (clock 0)) (snd (clock 0))
           = (Inr r, c1)"
  shows "try_primary_execution w orch name ps server_type clock
     = (\<lparr>success = True, result = Some r, mode = PRIMARY, error = None, retries = 0\<rparr>,
        orch\<lparr>enhanced_client := c1\<rparr>)"
  using assms by (simp add: try_primary_execution_def attempts_range_nonempty)

lemma execute_tool_primary_returns:
  assumes "current_mode orch = PRIMARY \<or> current_mode orch = RECOVERY"
    and "1 \<le> RecoveryStrategy.max_retries (recovery_strategy orch)"
    and "fst (invoke_tool w (enhanced_client orch) name ps (server_type \<noteq> []) (fst (clock 0)) (snd (clock 0)))
           = Inr r"
  shows "fst (execute_tool w orch name ps server_type clock now)
     = Inr \<lparr>success = True, result = Some r, mode = PRIMARY, error = None, retries = 0\<rparr>"
proof -
  obtain c1 where "invoke_tool w (enhanced_client orch) name ps (server_type \<noteq> []) (fst (clock 0)) (snd (clock 0))
           = (Inr r, c1)"
    using assms(3)
    by (cases "invoke_tool w (enhanced_client orch) name ps (server_type \<noteq> []) (fst (clock 0)) (snd (clock 0))")
      simp
  with assms(2) have "try_primary_execution w orch name ps server_type clock
     = (\<lparr>success = True, result = Some r, mode = PRIMARY, error = None, retries = 0\<rparr>,
        orch\<lparr>enhanced_client := c1\<rparr>)"
    by (rule primary_first_attempt [where clock = clock])
  with assms(1) show ?thesis
    by (auto simp: execute_tool_def split: prod.splits)
qed

text \<open>
  Claim C10. In PRIMARY or RECOVERY mode, with at least one primary attempt allowed:
  whatever value the first \<^verbatim>\<open>invoke_tool\<close> returns,
  \<^verbatim>\<open>execute_tool\<close> returns it as the payload of a result with
  \<open>success = True\<close> and \<open>mode = PRIMARY\<close>. In particular, when the call is not
  served from the cache and the pool is initialised, a response with a status other than
  200 and below 500 gives the payload \<^verbatim>\<open>{"error": "HTTP <code>: <text>", "status":
  "error"}\<close>, and a server that answers every request with a status of 500 or more gives
  the payload \<^verbatim>\<open>{"error": "Failed after <max_retries> attempts", "status":
  "error"}\<close>, each reported as a success.
\<close>

theorem error_dictionary_reported_as_success:
  assumes "current_mode orch = PRIMARY \<or> current_mode orch = RECOVERY"
    and "1 \<le> RecoveryStrategy.max_retries (recovery_strategy orch)"
  shows "(fst (invoke_tool w (enhanced_client orch) name ps (server_type \<noteq> []) (fst (clock 0)) (snd (clock 0)))
            = Inr r \<longrightarrow>
          fst (execute_tool w orch name ps server_type clock now)
            = Inr \<lparr>success = True, result = Some r, mode = PRIMARY, error = None, retries = 0\<rparr>)
       \<and> (cache_miss w (enhanced_client orch) name ps (server_type \<noteq> [])
          \<and> client_pool (enhanced_client orch) \<noteq> 0
          \<and> 1 \<le> EnhancedMCPClient.max_retries (enhanced_client orch)
          \<and> post w (posts (enhanced_client orch)) = Response sc tx bd \<and> sc \<noteq> 200 \<and> sc < 500 \<longrightarrow>
          fst (execute_tool w orch name ps server_type clock now)
            = Inr \<lparr>success = True, result = Some (ErrorDict (''HTTP '' @ str_nat sc @ '': '' @ tx)),
                   mode = PRIMARY, error = None, retries = 0\<rparr>)
       \<and> (cache_miss w (enhanced_client orch) name ps (server_type \<noteq> [])
          \<and> client_pool (enhanced_client orch) \<noteq> 0
          \<and> (\<forall>n. \<exists>sc tx bd. post w n = Response sc tx bd \<and> 500 \<le> sc) \<longrightarrow>
          fst (execute_tool w orch name ps server_type clock now)
            = Inr \<lparr>success = True,
                   result = Some (ErrorDict (''Failed after ''
                              @ str_int (EnhancedMCPClient.max_retries (enhanced_client orch))
                              @ '' attempts'')),
                   mode = PRIMARY, error = None, retries = 0\<rparr>)"
proof (intro conjI impI)
  assume "fst (invoke_tool w (enhanced_client orch) name ps (server_type \<noteq> []) (fst (clock 0)) (snd (clock 0))) = Inr r"
  with assms
  show "fst (execute_tool w orch name ps server_type clock now)
      = Inr \<lparr>success = True, result = Some r, mode = PRIMARY, error = None, retries = 0\<rparr>"
    by (rule execute_tool_primary_returns [where clock = clock])
next
  assume h: "cache_miss w (enhanced_client orch) name ps (server_type \<noteq> [])
          \<and> client_pool (enhanced_client orch) \<noteq> 0
          \<and> 1 \<le> EnhancedMCPClient.max_retries (enhanced_client orch)
          \<and> post w (posts (enhanced_client orch)) = Response sc tx bd \<and> sc \<noteq> 200 \<and> sc < 500"
  then obtain key where
    "invoke_tool w (enhanced_client orch) name ps (server_type \<noteq> []) (fst (clock 0)) (snd (clock 0))
       = invoke_uncached w (enhanced_client orch) name key (snd (clock 0))"
    using invoke_tool_miss [of w "enhanced_client orch" name ps "server_type \<noteq> []"
        "fst (clock 0)" "snd (clock 0)"] by blast
  with h have "fst (invoke_tool w (enhanced_client orch) name ps (server_type \<noteq> []) (fst (clock 0)) (snd (clock 0)))
      = Inr (ErrorDict (''HTTP '' @ str_nat sc @ '': '' @ tx))"
    by (simp add: invoke_uncached_client_error)
  with assms
  show "fst (execute_tool w orch name ps server_type clock now)
      = Inr \<lparr>success = True, result = Some (ErrorDict (''HTTP '' @ str_nat sc @ '': '' @ tx)),
             mode = PRIMARY, error = None, retries = 0\<rparr>"
    by (rule execute_tool_primary_returns [where clock = clock])
next
  assume h: "cache_miss w (enhanced_client orch) name ps (server_type \<noteq> [])
          \<and> client_pool (enhanced_client orch) \<noteq> 0
          \<and> (\<forall>n. \<exists>sc tx bd. post w n = Response sc tx bd \<and> 500 \<le> sc)"
  then obtain key where
    "invoke_tool w (enhanced_client orch) name ps (server_type \<noteq> []) (fst (clock 0)) (snd (clock 0))
       = invoke_uncached w (enhanced_client orch) name key (snd (clock 0))"
    using invoke_tool_miss [of w "enhanced_client orch" name ps "server_type \<noteq> []"
        "fst (clock 0)" "snd (clock 0)"] by blast
  with h have "fst (invoke_tool w (enhanced_client orch) name ps (server_type \<noteq> []) (fst (clock 0)) (snd (clock 0)))
      = Inr (ErrorDict (''Failed after '' @ str_int (EnhancedMCPClient.max_retries (enhanced_client orch))
                         @ '' attempts''))"
    by (simp add: invoke_uncached_exhausted)
  with assms
  show "fst (execute_tool w orch name ps server_type clock now)
      = Inr \<lparr>success = True,
             result = Some (ErrorDict (''Failed after ''
                        @ str_int (EnhancedMCPClient.max_retries (enhanced_client orch)) @ '' attempts'')),
             mode = PRIMARY, error = None, retries = 0\<rparr>"
    by (rule execute_tool_primary_returns [where clock = clock])
qed

text \<open>A server that answers 404, and one that answers 500 to each of the three
  attempts.\<close>

theorem error_dictionary_reported_as_success_witness:
  "fst (execute_tool world_404 orchestrator_with_fallback ''list_products'' () ''primary''
          (\<lambda>attempt. (10, 11)) 12)
     = Inr \<lparr>success = True, result = Some (ErrorDict ''HTTP 404: Not Found''),
            mode = PRIMARY, error = None, retries = 0\<rparr>
   \<and> fst (execute_tool world_always_500 orchestrator_with_fallback ''list_products'' () ''primary''
          (\<lambda>attempt. (10, 11)) 12)
     = Inr \<lparr>success = True, result = Some (ErrorDict ''Failed after 3 attempts''),
            mode = PRIMARY, error = None, retries = 0\<rparr>"
proof -
  have m: "current_mode orchestrator_with_fallback = PRIMARY \<or> current_mode orchestrator_with_fallback = RECOVERY"
    by code_simp
  have r: "1 \<le> RecoveryStrategy.max_retries (recovery_strategy orchestrator_with_fallback)"
    by code_simp
  have miss4: "cache_miss world_404 (enhanced_client orchestrator_with_fallback) ''list_products'' () (''primary'' \<noteq> [])"
    unfolding cache_miss_def
    by (rule disjI2, rule exI [of _ "''{}''"]) code_simp
  have miss5: "cache_miss world_always_500 (enhanced_client orchestrator_with_fallback) ''list_products'' () (''primary'' \<noteq> [])"
    unfolding cache_miss_def
    by (rule disjI2, rule exI [of _ "''{}''"]) code_simp
  have pool: "client_pool (enhanced_client orchestrator_with_fallback) \<noteq> 0" by code_simp
  have cr: "1 \<le> EnhancedMCPClient.max_retries (enhanced_client orchestrator_with_fallback)" by code_simp
  have p4: "post world_404 (posts (enhanced_client orchestrator_with_fallback))
      = Response 404 ''Not Found'' (Inl (OtherException ''no JSON''))"
    by (simp add: world_404_def)
  have p5: "\<forall>n. \<exists>sc tx bd. post world_always_500 n = Response sc tx bd \<and> 500 \<le> sc"
    by (simp add: world_always_500_def)
  have s404: "''HTTP '' @ str_nat 404 @ '': '' @ ''Not Found'' = ''HTTP 404: Not Found''" by code_simp
  have s3: "''Failed after '' @ str_int (EnhancedMCPClient.max_retries (enhanced_client orchestrator_with_fallback))
      @ '' attempts'' = ''Failed after 3 attempts''" by code_simp
  have pre4: "cache_miss world_404 (enhanced_client orchestrator_with_fallback) ''list_products'' ()
        (''primary'' \<noteq> [])
      \<and> client_pool (enhanced_client orchestrator_with_fallback) \<noteq> 0
      \<and> 1 \<le> EnhancedMCPClient.max_retries (enhanced_client orchestrator_with_fallback)
      \<and> post world_404 (posts (enhanced_client orchestrator_with_fallback))
          = Response 404 ''Not Found'' (Inl (OtherException ''no JSON''))
      \<and> 404 \<noteq> (200::nat) \<and> (404::nat) < 500"
    by (intro conjI miss4 pool cr p4) simp_all
  have pre5: "cache_miss world_always_500 (enhanced_client orchestrator_with_fallback) ''list_products'' ()
        (''primary'' \<noteq> [])
      \<and> client_pool (enhanced_client orchestrator_with_fallback) \<noteq> 0
      \<and> (\<forall>n. \<exists>sc tx bd. post world_always_500 n = Response sc tx bd \<and> 500 \<le> sc)"
    by (intro conjI miss5 pool p5)
  have a: "fst (execute_tool world_404 orchestrator_with_fallback ''list_products'' () ''primary''
          (\<lambda>attempt. (10, 11)) 12)
     = Inr \<lparr>success = True,
            result = Some (ErrorDict (''HTTP '' @ str_nat 404 @ '': '' @ ''Not Found'')),
            mode = PRIMARY, error = None, retries = 0\<rparr>"
    by (rule error_dictionary_reported_as_success [OF m r,
        of world_404 "''list_products''" "()" "''primary''" "\<lambda>attempt. (10, 11)" undefined 12
          404 "''Not Found''" "Inl (OtherException ''no JSON'')",
        THEN conjunct2, THEN conjunct1, THEN mp, OF pre4])
  have b: "fst (execute_tool world_always_500 orchestrator_with_fallback ''list_products'' () ''primary''
          (\<lambda>attempt. (10, 11)) 12)
     = Inr \<lparr>success = True,
            result = Some (ErrorDict (''Failed after ''
               @ str_int (EnhancedMCPClient.max_retries (enhanced_client orchestrator_with_fallback))
               @ '' attempts'')),
            mode = PRIMARY, error = None, retries = 0\<rparr>"
    by (rule error_dictionary_reported_as_success [OF m r,
        of world_always_500 "''list_products''" "()" "''primary''" "\<lambda>attempt. (10, 11)" undefined 12
          0 "[]" "Inl (OtherException [])",
        THEN conjunct2, THEN conjunct2, THEN mp, OF pre5])
  show ?thesis
    using a b unfolding s404 s3 by (rule conjI)
qed

section \<open>Orchestrator: what holds for every input\<close>

lemma probe_always_fails: "test_primary_connection orch = False"
  by (simp add: test_primary_connection_def call_get_available_tools_def)

lemma switch_mode_current: "current_mode (switch_mode now m orch) = m"
  by (simp add: switch_mode_def record_mode_change_def)

lemma switch_mode_handler: "fallback_handler (switch_mode now m orch) = fallback_handler orch"
  by (simp add: switch_mode_def record_mode_change_def)

lemma attempt_recovery_never_primary:
  "current_mode orch \<noteq> PRIMARY \<Longrightarrow> current_mode (attempt_recovery now orch) \<noteq> PRIMARY"
  by (simp add: attempt_recovery_def probe_always_fails switch_mode_current Let_def)

lemma three_failures_leave_primary:
  assumes "current_mode orch = PRIMARY" and "consecutive_errors orch = 0"
    and "error_threshold orch = 3"
  shows "current_mode (handle_failure t3 e3 (handle_failure t2 e2 (handle_failure t1 e1 orch)))
     = (if fallback_handler orch \<noteq> None then FALLBACK else DEGRADED)"
proof -
  let ?o1 = "handle_failure t1 e1 orch"
  let ?o2 = "handle_failure t2 e2 ?o1"
  have o1: "current_mode ?o1 = PRIMARY" "consecutive_errors ?o1 = 1" "error_threshold ?o1 = 3"
    "fallback_handler ?o1 = fallback_handler orch"
    using assms by (simp_all add: handle_failure_def Let_def)
  then have o2: "current_mode ?o2 = PRIMARY" "consecutive_errors ?o2 = 2" "error_threshold ?o2 = 3"
    "fallback_handler ?o2 = fallback_handler orch"
    by (simp_all add: handle_failure_def Let_def)
  then show ?thesis
    by (simp add: handle_failure_def Let_def switch_mode_current)
qed

lemma execute_tool_without_handler_returns:
  assumes "fallback_handler orch = None"
  shows "\<exists>r. fst (execute_tool w orch name ps server_type clock now) = Inr r"
proof -
  have fb: "\<exists>r. fst (fallback_stage w o1 name ps n now) = Inr r" if "fallback_handler o1 = None" for o1 n
    using that by (simp add: fallback_stage_def Let_def)
  have tp: "fallback_handler (snd (try_primary_execution w orch name ps server_type clock)) = None"
    using assms by (simp add: try_primary_execution_def split: prod.splits)
  show ?thesis
  proof (cases "current_mode orch = PRIMARY \<or> current_mode orch = RECOVERY")
    case False
    then show ?thesis using fb [OF assms] by (simp add: execute_tool_def)
  next
    case True
    obtain r o1 where t: "try_primary_execution w orch name ps server_type clock = (r, o1)"
      by (cases "try_primary_execution w orch name ps server_type clock")
    with tp have "fallback_handler o1 = None" by simp
    from fb [OF this] True t show ?thesis
      by (simp add: execute_tool_def split: prod.splits)
  qed
qed

lemma execute_tool_with_handler_raises:
  assumes "fallback_handler orch \<noteq> None"
    and "current_mode orch = FALLBACK \<or> current_mode orch = DEGRADED"
  shows "fst (execute_tool w orch name ps server_type clock now)
     = Inl (AttributeError ''MCPFallbackHandler object has no attribute supports_tool'')"
proof -
  have "handler_getattr ''supports_tool''
      = Inl (AttributeError ''MCPFallbackHandler object has no attribute supports_tool'')"
    by (simp add: handler_getattr_def MCPFallbackHandler_attributes_def)
  with assms show ?thesis
    by (auto simp: execute_tool_def fallback_stage_def can_use_fallback_def Let_def)
qed

text \<open>The retry loop of \<^verbatim>\<open>_try_primary_execution\<close> counts a retry for each attempt
  that raises. \<^verbatim>\<open>invoke_tool\<close> raises only when the parameters cannot be printed
  as JSON; then every attempt raises and the result is a failure with
  \<open>retries = max_retries\<close>.\<close>

lemma invoke_tool_unserializable:
  "json_dumps w ps = Inl e \<Longrightarrow> invoke_tool w c name ps True now fin = (Inl e, c)"
  by (simp add: invoke_tool_def get_cache_key_def)

lemma primary_attempts_all_raise:
  assumes "json_dumps w ps = Inl e" and "server_type \<noteq> []"
  shows "primary_attempts w name ps server_type clock c n last_err xs
     = (\<lparr>success = False, result = None, mode = PRIMARY,
         error = (if xs = [] then last_err else Some (exn_str e)),
         retries = n + int (length xs)\<rparr>, c)"
proof (induction xs arbitrary: n last_err)
  case Nil
  then show ?case by simp
next
  case (Cons a xs)
  from assms have "invoke_tool w c name ps (server_type \<noteq> []) (fst (clock a)) (snd (clock a)) = (Inl e, c)"
    by (simp add: invoke_tool_unserializable)
  with Cons.IH [of "n + 1" "Some (exn_str e)"] show ?case by simp
qed

lemma try_primary_execution_all_raise:
  assumes "json_dumps w ps = Inl e" and "server_type \<noteq> []"
    and "1 \<le> RecoveryStrategy.max_retries (recovery_strategy orch)"
  shows "fst (try_primary_execution w orch name ps server_type clock)
     = \<lparr>success = False, result = None, mode = PRIMARY, error = Some (exn_str e),
        retries = RecoveryStrategy.max_retries (recovery_strategy orch)\<rparr>"
  using assms
  by (simp add: try_primary_execution_def primary_attempts_all_raise)

section \<open>Orchestrator: evaluations\<close>

text \<open>
  Claim C1 at an orchestrator built with a database path, so with a fallback handler.
  Once three reported failures have moved it to FALLBACK, \<^verbatim>\<open>execute_tool\<close> raises
  \<^verbatim>\<open>AttributeError\<close>: \<^verbatim>\<open>_can_use_fallback\<close> calls
  \<^verbatim>\<open>supports_tool\<close>, and the handler's method is named
  \<^verbatim>\<open>is_tool_supported\<close>. The same happens in PRIMARY mode when every primary
  attempt raises, here on parameters that JSON cannot print.
\<close>

theorem execute_tool_raises:
  "current_mode (three_failures orchestrator_with_fallback) = FALLBACK
   \<and> fst (execute_tool world_healthy (three_failures orchestrator_with_fallback)
            ''list_products'' () ''primary'' (\<lambda>attempt. (10, 11)) 12)
       = Inl (AttributeError ''MCPFallbackHandler object has no attribute supports_tool'')
   \<and> current_mode orchestrator_with_fallback = PRIMARY
   \<and> fst (execute_tool world_unserializable orchestrator_with_fallback
            ''list_products'' () ''primary'' (\<lambda>attempt. (10, 11)) 12)
       = Inl (AttributeError ''MCPFallbackHandler object has no attribute supports_tool'')"
  by code_simp

text \<open>
  Claim C3 at a server that answers 500, 500 and then 200, and at one that always answers
  500, with both retry limits at 3. In the first case the three POSTs happen inside one
  \<^verbatim>\<open>invoke_tool\<close>, and the result reports \<open>retries = 0\<close>, not 2. In the
  second the three POSTs end in an error dictionary, which
  \<^verbatim>\<open>_try_primary_execution\<close> reports with \<open>success = True\<close>.
\<close>

theorem retries_not_reported:
  "fst (execute_tool world_500_500_200 orchestrator_with_fallback
          ''list_products'' () ''primary'' (\<lambda>attempt. (10, 11)) 12)
     = Inr \<lparr>success = True, result = Some (ResultDict ''rows''), mode = PRIMARY,
            error = None, retries = 0\<rparr>
   \<and> posts (enhanced_client (fst (snd (execute_tool world_500_500_200 orchestrator_with_fallback
          ''list_products'' () ''primary'' (\<lambda>attempt. (10, 11)) 12)))) = 3
   \<and> fst (execute_tool world_always_500 orchestrator_with_fallback
          ''list_products'' () ''primary'' (\<lambda>attempt. (10, 11)) 12)
     = Inr \<lparr>success = True, result = Some (ErrorDict ''Failed after 3 attempts''), mode = PRIMARY,
            error = None, retries = 0\<rparr>
   \<and> posts (enhanced_client (fst (snd (execute_tool world_always_500 orchestrator_with_fallback
          ''list_products'' () ''primary'' (\<lambda>attempt. (10, 11)) 12)))) = 3"
  by code_simp

text \<open>
  Claim C4. Three consecutive failures move a PRIMARY orchestrator to FALLBACK with a
  handler and to DEGRADED without one. A recovery attempt after the recovery window, with
  the client holding the tools it loaded, leaves the mode where it was: the probe
  \<^verbatim>\<open>_test_primary_connection\<close> calls \<^verbatim>\<open>get_available_tools("primary")\<close>
  on a method that takes no argument, and the \<^verbatim>\<open>TypeError\<close> is caught and read
  as a failed probe.
\<close>

theorem recovery_never_reaches_primary:
  "current_mode (three_failures orchestrator_with_fallback) = FALLBACK
   \<and> current_mode (three_failures orchestrator_without_fallback) = DEGRADED
   \<and> get_available_tools (enhanced_client (three_failures orchestrator_with_fallback)) = [''list_products'']
   \<and> orch_should_attempt_recovery 400000000 (three_failures orchestrator_with_fallback)
   \<and> current_mode (attempt_recovery 400000000 (three_failures orchestrator_with_fallback)) = FALLBACK
   \<and> current_mode (attempt_recovery 400000000 (three_failures orchestrator_without_fallback)) = DEGRADED"
  by code_simp

section \<open>Batch executor: the sequential mode\<close>

lemma fill_skipped_eq:
  "fill_skipped results tool_calls
     = results @ map (\<lambda>tc. skipped (tool_name tc)) (drop (length results) tool_calls)"
proof (induction results tool_calls rule: fill_skipped.induct)
  case (1 results tool_calls)
  show ?case
  proof (cases "length results < length tool_calls")
    case True
    then have d: "drop (length results) tool_calls
        = tool_calls ! length results # drop (Suc (length results)) tool_calls"
      by (simp add: Cons_nth_drop_Suc)
    from True 1 show ?thesis
      by (subst fill_skipped.simps) (simp add: d)
  next
    case False
    then show ?thesis by (subst fill_skipped.simps) simp
  qed
qed

lemma sequential_loop_prefix:
  "\<exists>new. sequential_loop stop invoke i tcs results = results @ new \<and> length new \<le> length tcs"
proof (induction tcs arbitrary: i results)
  case Nil
  then show ?case by simp
next
  case (Cons tc tcs)
  show ?case
  proof (cases "invoke i")
    case (Inl e)
    from Cons.IH [of "Suc i" "results @ [ToolErrorDict (exn_str e) (tool_name tc)]"] Inl
    show ?thesis by (auto simp: Let_def)
  next
    case (Inr r)
    from Cons.IH [of "Suc i" "results @ [r]"] Inr
    show ?thesis by (auto simp: Let_def)
  qed
qed

lemma sequential_loop_stops:
  assumes "k < length tcs" and "call_fails invoke (i + k)" and "\<forall>j<k. \<not> call_fails invoke (i + j)"
  shows "length (sequential_loop True invoke i tcs results) = length results + k + 1"
  using assms
proof (induction tcs arbitrary: i k results)
  case Nil
  then show ?case by simp
next
  case (Cons tc tcs)
  show ?case
  proof (cases k)
    case 0
    with Cons.prems show ?thesis
      by (auto simp: call_fails_def Let_def split: sum.splits)
  next
    case (Suc k')
    with Cons.prems have nf: "\<not> call_fails invoke i" by auto
    have a: "k' < length tcs" using Cons.prems Suc by simp
    have b: "call_fails invoke (Suc i + k')" using Cons.prems Suc by simp
    have c: "\<forall>j<k'. \<not> call_fails invoke (Suc i + j)"
    proof (intro allI impI)
      fix j assume "j < k'"
      then have "Suc j < k" using Suc by simp
      with Cons.prems(3) have "\<not> call_fails invoke (i + Suc j)" by blast
      then show "\<not> call_fails invoke (Suc i + j)" by simp
    qed
    from nf obtain r where r: "invoke i = Inr r" "status r \<noteq> ''error''"
      by (auto simp: call_fails_def split: sum.splits)
    from Cons.IH [OF a b c, of "results @ [r]"] r Suc show ?thesis
      by (simp add: Let_def)
  qed
qed

lemma execute_sequential_length:
  "length (execute_sequential tool_calls invoke stop) = length tool_calls"
proof -
  obtain new where n: "sequential_loop stop invoke 0 tool_calls [] = new" "length new \<le> length tool_calls"
    using sequential_loop_prefix [of stop invoke 0 tool_calls "[]"] by auto
  then show ?thesis
    by (simp add: execute_sequential_def fill_skipped_eq)
qed

lemma execute_sequential_skips:
  assumes "k < length tool_calls" and "call_fails invoke k" and "\<forall>j<k. \<not> call_fails invoke j"
    and "k < i" and "i < length tool_calls"
  shows "execute_sequential tool_calls invoke True ! i = skipped (tool_name (tool_calls ! i))"
proof -
  let ?rs = "sequential_loop True invoke 0 tool_calls []"
  have len: "length ?rs = k + 1"
    using sequential_loop_stops [of k tool_calls invoke 0 "[]"] assms(1-3) by simp
  have "execute_sequential tool_calls invoke True ! i
      = map (\<lambda>tc. skipped (tool_name tc)) (drop (k + 1) tool_calls) ! (i - (k + 1))"
    using assms(4) len by (simp add: execute_sequential_def fill_skipped_eq nth_append)
  also have "\<dots> = skipped (tool_name (tool_calls ! i))"
  proof -
    have "k + 1 + (i - (k + 1)) = i" using assms(4) by simp
    moreover have "k + 1 \<le> length tool_calls" using assms(4,5) by simp
    ultimately have "drop (k + 1) tool_calls ! (i - (k + 1)) = tool_calls ! i"
      using nth_drop [of "k + 1" tool_calls "i - (k + 1)"] by simp
    moreover have "i - (k + 1) < length (drop (k + 1) tool_calls)"
      using assms(4,5) by simp
    ultimately show ?thesis by simp
  qed
  finally show ?thesis .
qed

section \<open>Batch executor: the parallel mode without stop\_on\_error\<close>

lemma parallel_run_no_stop:
  "length (parallel_run False tcs invoke order results) = length results
   \<and> (\<forall>i. i < length results \<and> i < length tcs \<longrightarrow>
        parallel_run False tcs invoke order results ! i
          = (if i \<in> set order then Some (fst (task_body False (tcs ! i) (invoke i)))
             else results ! i))"
proof (induction order arbitrary: results)
  case Nil
  then show ?case by simp
next
  case (Cons j order)
  have nr: "\<not> snd (task_body False (tcs ! j) (invoke j))"
    by (simp add: task_body_def split: sum.split)
  show ?case
  proof (cases "j < length tcs")
    case False
    with Cons.IH [of results] show ?thesis by auto
  next
    case True
    let ?rs = "results[j := Some (fst (task_body False (tcs ! j) (invoke j)))]"
    have step: "parallel_run False tcs invoke (j # order) results
        = parallel_run False tcs invoke order ?rs"
      using True nr by (cases "task_body False (tcs ! j) (invoke j)") simp
    from Cons.IH [of ?rs] show ?thesis
      unfolding step by (auto simp: nth_list_update)
  qed
qed

lemma execute_parallel_no_stop:
  assumes "{..<length tool_calls} \<subseteq> set order" and "i < length tool_calls"
  shows "length (execute_parallel tool_calls invoke False order) = length tool_calls"
    and "execute_parallel tool_calls invoke False order ! i
           = Some (fst (task_body False (tool_calls ! i) (invoke i)))"
proof -
  from assms have "i \<in> set order" by auto
  with parallel_run_no_stop [of tool_calls invoke order "replicate (length tool_calls) None"] assms(2)
  show "length (execute_parallel tool_calls invoke False order) = length tool_calls"
    and "execute_parallel tool_calls invoke False order ! i
           = Some (fst (task_body False (tool_calls ! i) (invoke i)))"
    by (simp_all add: execute_parallel_def)
qed

section \<open>Batch executor: evaluations\<close>

text \<open>
  Claim C8 in parallel mode with \<^verbatim>\<open>stop_on_error\<close>, for two calls of which the
  first fails while the second has not finished: the second slot is \<^verbatim>\<open>None\<close>,
  not a skipped result, and \<^verbatim>\<open>execute_batch\<close> raises when it counts the
  failures. The sequential mode on the same input returns the two results, the second one
  skipped.
\<close>

theorem parallel_stop_on_error_raises:
  "execute_parallel two_calls first_fails True [0, 1]
     = [Some (ToolErrorDict ''Tool get_customer_orders failed'' ''get_customer_orders''), None]
   \<and> execute_batch two_calls first_fails True True [0, 1]
     = Inl (AttributeError ''NoneType object has no attribute get'')
   \<and> execute_batch two_calls first_fails False True [0, 1]
     = Inr [Some (ErrorDict ''HTTP 404: Not Found''), Some (skipped ''list_products'')]"
  by code_simp

end
